theory Spec2Isabelle
  imports Complex_Main "HOL-Library.Sublist" "HOL-Library.Multiset"
    "HOL-Library.Char_ord" "HOL-Library.List_Lexorder"
begin

section \<open>Python strings\<close>

text \<open>
  Strings are character lists. The helpers below are the \<^verbatim>\<open>str\<close> methods the
  two source files call; each follows CPython's behaviour on ASCII text.
\<close>

definition startswith :: "string \<Rightarrow> string \<Rightarrow> bool" where
  "startswith s p = (take (length p) s = p)"

definition endswith :: "string \<Rightarrow> string \<Rightarrow> bool" where
  "endswith s p = (length p \<le> length s \<and> drop (length s - length p) s = p)"

text \<open>\<^verbatim>\<open>sub in s\<close> for two strings: \<open>sub\<close> occurs in \<open>s\<close> as a contiguous run.\<close>

fun contains_str :: "string \<Rightarrow> string \<Rightarrow> bool" where
  "contains_str [] sub = (sub = [])"
| "contains_str (c # cs) sub = (startswith (c # cs) sub \<or> contains_str cs sub)"

text \<open>\<^verbatim>\<open>s.split(sep)\<close> for a one-character separator: empty pieces are kept.\<close>

fun split_on :: "char \<Rightarrow> string \<Rightarrow> string list" where
  "split_on sep [] = [[]]"
| "split_on sep (c # cs) =
     (if c = sep then [] # split_on sep cs
      else (case split_on sep cs of
              [] \<Rightarrow> [[c]]
            | p # ps \<Rightarrow> (c # p) # ps))"

text \<open>\<^verbatim>\<open>s.rstrip(c)\<close> for a one-character set: every trailing \<open>c\<close> is removed.\<close>

definition rstrip :: "string \<Rightarrow> char \<Rightarrow> string" where
  "rstrip s c = rev (dropWhile (\<lambda>x. x = c) (rev s))"

text \<open>
  \<^verbatim>\<open>s.replace(old, new)\<close>: every occurrence of \<open>old\<close>, left to right and without
  overlap. For the empty \<open>old\<close> Python puts \<open>new\<close> before every character and at the end.
\<close>

function replace :: "string \<Rightarrow> string \<Rightarrow> string \<Rightarrow> string" where
  "replace [] old new = (if old = [] then new else [])"
| "replace (c # cs) old new =
     (if old = [] then new @ c # replace cs old new
      else if startswith (c # cs) old then new @ replace (drop (length old) (c # cs)) old new
      else c # replace cs old new)"
  by pat_completeness auto
termination
  by (relation "measure (\<lambda>(s, old, new). length s)") auto

definition ascii_lowercase :: string where
  "ascii_lowercase = ''abcdefghijklmnopqrstuvwxyz''"

definition ascii_uppercase :: string where
  "ascii_uppercase = ''ABCDEFGHIJKLMNOPQRSTUVWXYZ''"

definition upper_char :: "char \<Rightarrow> char" where
  "upper_char c =
     (case map_of (zip ascii_lowercase ascii_uppercase) c of None \<Rightarrow> c | Some u \<Rightarrow> u)"

definition lower_char :: "char \<Rightarrow> char" where
  "lower_char c =
     (case map_of (zip ascii_uppercase ascii_lowercase) c of None \<Rightarrow> c | Some l \<Rightarrow> l)"

definition upper :: "string \<Rightarrow> string" where
  "upper s = map upper_char s"

definition lower :: "string \<Rightarrow> string" where
  "lower s = map lower_char s"

text \<open>\<^verbatim>\<open>str(n)\<close> of an integer, as \<^verbatim>\<open>"{}".format(n)\<close> prints it.\<close>

definition digit_char :: "nat \<Rightarrow> char" where
  "digit_char d = ''0123456789'' ! d"

function str_nat :: "nat \<Rightarrow> string" where
  "str_nat n = (if n < 10 then [digit_char n] else str_nat (n div 10) @ [digit_char (n mod 10)])"
  by pat_completeness auto
termination
  by (relation "measure (\<lambda>n. n)") auto

declare str_nat.simps [simp del]

definition str_int :: "int \<Rightarrow> string" where
  "str_int i = (if i < 0 then CHR ''-'' # str_nat (nat (- i)) else str_nat (nat i))"

section \<open>JSON values, exceptions and test outcomes\<close>

text \<open>
  What \<^verbatim>\<open>json.loads\<close> and \<^verbatim>\<open>response.json()\<close> return. A dictionary is an
  association list read with \<open>map_of\<close>. The code under study never inspects a number,
  so numbers are integers here.
\<close>

datatype jvalue =
    JNull
  | JBool bool
  | JNum int
  | JStr string
  | JArr "jvalue list"
  | JObj "(string \<times> jvalue) list"

text \<open>Python truthiness, as in \<^verbatim>\<open>if schema:\<close>.\<close>

fun truthy :: "jvalue \<Rightarrow> bool" where
  "truthy JNull = False"
| "truthy (JBool b) = b"
| "truthy (JNum n) = (n \<noteq> 0)"
| "truthy (JStr s) = (s \<noteq> [])"
| "truthy (JArr xs) = (xs \<noteq> [])"
| "truthy (JObj kvs) = (kvs \<noteq> [])"

text \<open>The exceptions that the modelled code can raise or let through.\<close>

datatype exn =
    KeyError string
  | TypeError
  | IndexError
  | JSONDecodeError
  | RequestException string
  | AttributeError
  | OtherException string

text \<open>\<^verbatim>\<open>key in obj\<close> and \<^verbatim>\<open>obj[key]\<close> for a string key and a JSON value.\<close>

fun py_in :: "string \<Rightarrow> jvalue \<Rightarrow> exn + bool" where
  "py_in k (JObj kvs) = Inr (map_of kvs k \<noteq> None)"
| "py_in k (JArr xs) = Inr (JStr k \<in> set xs)"
| "py_in k (JStr s) = Inr (contains_str s k)"
| "py_in k JNull = Inl TypeError"
| "py_in k (JBool b) = Inl TypeError"
| "py_in k (JNum n) = Inl TypeError"

fun py_getitem :: "jvalue \<Rightarrow> string \<Rightarrow> exn + jvalue" where
  "py_getitem (JObj kvs) k = (case map_of kvs k of None \<Rightarrow> Inl (KeyError k) | Some v \<Rightarrow> Inr v)"
| "py_getitem (JArr xs) k = Inl TypeError"
| "py_getitem (JStr s) k = Inl TypeError"
| "py_getitem JNull k = Inl TypeError"
| "py_getitem (JBool b) k = Inl TypeError"
| "py_getitem (JNum n) k = Inl TypeError"

text \<open>
  Modelled from the spec: the \<^verbatim>\<open>Test\<close> class of the \<^verbatim>\<open>TestResult\<close> module is not
  among the sources. The specification describes an outcome as a name, a verdict out of
  PASS, FAIL, WARNING, NOT_APPLICABLE, UNCLEAR and MANUAL, and a message.
  \<^verbatim>\<open>Test(name)\<close> is the name alone; its methods produce the outcome.
\<close>

datatype verdict = Pass | Fail | Warning | NotApplicable | Unclear | Manual

record outcome =
  name :: string
  state :: verdict
  detail :: string

definition PASS :: "string \<Rightarrow> outcome" where
  "PASS test = \<lparr>name = test, state = Pass, detail = []\<rparr>"

definition FAIL :: "string \<Rightarrow> string \<Rightarrow> outcome" where
  "FAIL test msg = \<lparr>name = test, state = Fail, detail = msg\<rparr>"

definition MANUAL :: "string \<Rightarrow> string \<Rightarrow> outcome" where
  "MANUAL test msg = \<lparr>name = test, state = Manual, detail = msg\<rparr>"

definition NA :: "string \<Rightarrow> string \<Rightarrow> outcome" where
  "NA test msg = \<lparr>name = test, state = NotApplicable, detail = msg\<rparr>"


section \<open>GenericTest: responses and the environment\<close>

text \<open>
  A \<^verbatim>\<open>requests\<close> response: the status code, the headers, and what \<^verbatim>\<open>.json()\<close>
  gives (\<open>None\<close> when it raises \<^verbatim>\<open>JSONDecodeError\<close>). The header dictionary of
  \<^verbatim>\<open>requests\<close> compares names without regard to case.
\<close>

record response =
  status_code :: int
  headers :: "(string \<times> string) list"
  json :: "jvalue option"

definition header_get :: "(string \<times> string) list \<Rightarrow> string \<Rightarrow> string option" where
  "header_get hs k = map_of (map (\<lambda>(n, v). (lower n, v)) hs) (lower k)"

definition header_in :: "string \<Rightarrow> (string \<times> string) list \<Rightarrow> bool" where
  "header_in k hs = (header_get hs k \<noteq> None)"

text \<open>
  A declared endpoint, as \<^verbatim>\<open>get_reads()\<close> yields it: the path template and a
  dictionary with the method (key \<^verbatim>\<open>'method'\<close>, here \<open>http_method\<close>), the parameters
  (their names) and the response codes.
\<close>

record resource_info =
  http_method :: string
  params :: "string list"
  responses :: "int list"

type_synonym resource = "string \<times> resource_info"

text \<open>
  What \<^verbatim>\<open>jsonschema.validate\<close> does: return, raise \<^verbatim>\<open>ValidationError\<close> with its
  diagnostic, or raise another of its errors (a broken schema, a reference that does not
  resolve), which \<^verbatim>\<open>check_response\<close> does not catch.
\<close>

datatype validation = Valid | ValidationError string | ValidationAbort string

text \<open>
  The collaborators that are not part of the sources are parameters of the model:
  the network (\<open>do_request\<close> is the body of the method of that name, which turns every
  \<^verbatim>\<open>requests\<close> exception into \<^verbatim>\<open>(False, message)\<close>; \<open>requests_get\<close> is the bare
  \<^verbatim>\<open>requests.get\<close>, whose exceptions nothing catches), the \<^verbatim>\<open>Specification\<close>
  object of each API, the schema validator and the printing of a header dictionary.
  The network is asked with the number of requests made so far, so that the same
  request may be answered differently at different times.
\<close>

record env =
  base_url :: string
  test_version :: string
  apis :: "string list"
  api_url :: "string \<Rightarrow> string"
  get_reads :: "string \<Rightarrow> resource list"
  get_schema :: "string \<Rightarrow> string \<Rightarrow> string \<Rightarrow> int \<Rightarrow> jvalue option"
  validate :: "jvalue \<Rightarrow> jvalue \<Rightarrow> validation"
  do_request :: "nat \<Rightarrow> string \<Rightarrow> string \<Rightarrow> string + response"
  requests_get :: "nat \<Rightarrow> string \<Rightarrow> exn + response"
  str_headers :: "(string \<times> string) list \<Rightarrow> string"

text \<open>
  The crawler's state: \<^verbatim>\<open>self.saved_entities\<close>, the number of HTTP requests made,
  and the record of what \<open>do_request\<close> returned: method, URL, path template, response.
\<close>

record crawler =
  saved_entities :: "string \<rightharpoonup> jvalue list"
  clock :: nat
  received :: "(string \<times> string \<times> string \<times> response) list"

definition init_crawler :: crawler where
  "init_crawler = \<lparr>saved_entities = Map.empty, clock = 0, received = []\<rparr>"

section \<open>GenericTest: validation of a response\<close>

definition validate_CORS :: "string \<Rightarrow> response \<Rightarrow> exn + bool" where
  "validate_CORS meth resp =
     (if \<not> header_in ''Access-Control-Allow-Origin'' (headers resp) then Inr False
      else if meth \<in> set [''OPTIONS'', ''POST'', ''PUT'', ''PATCH'', ''DELETE''] then
        (if \<not> header_in ''Access-Control-Allow-Headers'' (headers resp) then Inr False
         else (case header_get (headers resp) ''Access-Control-Allow-Headers'' of
                 None \<Rightarrow> Inl (KeyError ''access-control-allow-headers'')
               | Some allow_headers \<Rightarrow>
                   if \<not> contains_str allow_headers meth then Inr False
                   else if \<not> header_in ''Access-Control-Allow-Method'' (headers resp)
                     then Inr False
                   else (case header_get (headers resp) ''Access-Control-Allow-Methods'' of
                           None \<Rightarrow> Inl (KeyError ''access-control-allow-methods'')
                         | Some allow_methods \<Rightarrow>
                             if \<not> contains_str allow_methods meth then Inr False
                             else Inr True)))
      else Inr True)"

definition check_base_path :: "env \<Rightarrow> nat \<Rightarrow> string \<Rightarrow> string \<Rightarrow> exn + outcome" where
  "check_base_path env n path expectation =
     (let test = ''GET '' @ path in
      case requests_get env n (base_url env @ path) of
        Inl e \<Rightarrow> Inl e
      | Inr req \<Rightarrow>
          if status_code req \<noteq> 200
            then Inr (FAIL test (''Incorrect response code: '' @ str_int (status_code req)))
          else (case validate_CORS ''GET'' req of
                  Inl e \<Rightarrow> Inl e
                | Inr cors \<Rightarrow>
                    if \<not> cors
                      then Inr (FAIL test (''Incorrect CORS headers: '' @ str_headers env (headers req)))
                    else (case json req of
                            None \<Rightarrow> Inr (FAIL test ''Non-JSON response returned'')
                          | Some (JArr xs) \<Rightarrow>
                              if JStr expectation \<notin> set xs
                                then Inr (FAIL test (''Response is not an array containing '' @ [CHR 0x27]
                                                     @ expectation @ [CHR 0x27]))
                              else Inr (PASS test)
                          | Some _ \<Rightarrow>
                              Inr (FAIL test (''Response is not an array containing '' @ [CHR 0x27]
                                              @ expectation @ [CHR 0x27])))))"

definition check_response ::
  "env \<Rightarrow> string \<Rightarrow> string \<Rightarrow> string \<Rightarrow> string \<Rightarrow> response \<Rightarrow> exn + outcome" where
  "check_response env test api_name meth path resp =
     (case validate_CORS meth resp of
        Inl e \<Rightarrow> Inl e
      | Inr cors \<Rightarrow>
          if \<not> cors
            then Inr (FAIL test (''Incorrect CORS headers: '' @ str_headers env (headers resp)))
          else (case get_schema env api_name meth path (status_code resp) of
                  None \<Rightarrow> Inr (MANUAL test ''Test suite unable to locate schema'')
                | Some schema \<Rightarrow>
                    if truthy schema then
                      (case json resp of
                         None \<Rightarrow> Inr (FAIL test ''Invalid JSON received'')
                       | Some body \<Rightarrow>
                           (case validate env body schema of
                              Valid \<Rightarrow> Inr (PASS test)
                            | ValidationError diagnostic \<Rightarrow>
                                Inr (FAIL test ''Response schema validation error'')
                            | ValidationAbort message \<Rightarrow> Inl (OtherException message)))
                    else Inr (MANUAL test ''Test suite unable to locate schema'')))"

section \<open>GenericTest: the crawler\<close>

text \<open>
  \<open>harvest\<close> is the \<^verbatim>\<open>for entry in response.json()\<close> loop of
  \<^verbatim>\<open>save_subresources\<close>, with the list \<^verbatim>\<open>subresources\<close> as accumulator.
\<close>

fun harvest :: "jvalue list \<Rightarrow> jvalue list \<Rightarrow> jvalue list" where
  "harvest subresources [] = subresources"
| "harvest subresources (entry # entries) =
     harvest
       (case entry of
          JObj d \<Rightarrow> (case map_of d ''id'' of
                       Some v \<Rightarrow> subresources @ [v]
                     | None \<Rightarrow> subresources)
        | JStr s \<Rightarrow> if endswith s ''/'' then subresources @ [JStr (rstrip s CHR ''/'')]
                    else subresources
        | _ \<Rightarrow> subresources)
       entries"

definition subresources_of :: "response \<Rightarrow> jvalue list" where
  "subresources_of resp =
     (case json resp of
        Some (JArr entries) \<Rightarrow> harvest [] entries
      | _ \<Rightarrow> [])"

definition save_subresources :: "string \<Rightarrow> response \<Rightarrow> crawler \<Rightarrow> crawler" where
  "save_subresources path resp st =
     (let subresources = subresources_of resp in
      if length subresources > 0 then
        (case saved_entities st path of
           None \<Rightarrow> st\<lparr>saved_entities := (saved_entities st)(path \<mapsto> subresources)\<rparr>
         | Some saved \<Rightarrow> st\<lparr>saved_entities := (saved_entities st)(path \<mapsto> saved @ subresources)\<rparr>)
      else st)"

text \<open>
  The loop of \<^verbatim>\<open>check_api_resource\<close> that builds the key under which identifiers
  are looked up: the parts of the template before the first one that opens a brace,
  empty parts left out.
\<close>

fun collection_path_loop :: "string \<Rightarrow> string list \<Rightarrow> string" where
  "collection_path_loop path [] = path"
| "collection_path_loop path (part # parts) =
     (if startswith part ''{'' then path
      else collection_path_loop (if part \<noteq> [] then path @ ''/'' @ part else path) parts)"

definition collection_path :: "string \<Rightarrow> string" where
  "collection_path template = collection_path_loop [] (split_on CHR ''/'' template)"

definition test_name :: "env \<Rightarrow> string \<Rightarrow> string \<Rightarrow> string \<Rightarrow> string" where
  "test_name env meth api url_param =
     upper meth @ '' /x-nmos/'' @ api @ ''/'' @ test_version env @ url_param"

text \<open>
  The second half of \<^verbatim>\<open>check_api_resource\<close>, from \<^verbatim>\<open>do_request\<close> on: the request,
  the status code, the harvest and the validation of the response.
\<close>

definition request_and_check ::
  "env \<Rightarrow> resource \<Rightarrow> int \<Rightarrow> string \<Rightarrow> string \<Rightarrow> string \<Rightarrow> crawler
     \<Rightarrow> exn + (outcome option \<times> crawler)" where
  "request_and_check env resource response_code api url test st =
     (case do_request env (clock st) (http_method (snd resource)) url of
        Inl message \<Rightarrow> Inr (Some (FAIL test message), st\<lparr>clock := clock st + 1\<rparr>)
      | Inr resp \<Rightarrow>
          (let st1 = st\<lparr>clock := clock st + 1,
                        received := received st @ [(http_method (snd resource), url, fst resource, resp)]\<rparr>
           in if status_code resp \<noteq> response_code
                then Inr (Some (FAIL test (''Incorrect response code: '' @ str_int (status_code resp))), st1)
              else (let st2 = save_subresources (fst resource) resp st1 in
                    case check_response env test api (http_method (snd resource)) (fst resource) resp of
                      Inl e \<Rightarrow> Inl e
                    | Inr result \<Rightarrow> Inr (Some result, st2))))"

definition check_api_resource ::
  "env \<Rightarrow> resource \<Rightarrow> int \<Rightarrow> string \<Rightarrow> crawler \<Rightarrow> exn + (outcome option \<times> crawler)" where
  "check_api_resource env resource response_code api st =
     (if params (snd resource) \<noteq> [] \<and> length (params (snd resource)) = 1 then
        (let path = collection_path (fst resource) in
         case saved_entities st path of
           Some saved \<Rightarrow>
             (case saved of
                [] \<Rightarrow> Inl IndexError
              | entity # _ \<Rightarrow>
                  (case entity of
                     JStr ident \<Rightarrow>
                       (let url_param = replace (fst resource)
                                          (''{'' @ params (snd resource) ! 0 @ ''}'') ident;
                            url = rstrip (api_url env api) CHR ''/'' @ url_param;
                            test = test_name env (http_method (snd resource)) api url_param
                        in request_and_check env resource response_code api url test st)
                   | _ \<Rightarrow> Inl TypeError))
         | None \<Rightarrow>
             Inr (Some (NA (test_name env (http_method (snd resource)) api (fst resource))
                           ''No resources found to perform this test''), st))
      else if params (snd resource) = [] then
        (let url = rstrip (api_url env api) CHR ''/'' @ fst resource;
             test = test_name env (http_method (snd resource)) api (fst resource)
         in request_and_check env resource response_code api url test st)
      else Inr (None, st))"

text \<open>
  \<^verbatim>\<open>basics\<close>: per API three base-path checks, then every declared read endpoint,
  once for each response code equal to 200. An outcome \<^verbatim>\<open>None\<close> is not appended.
\<close>

fun check_codes ::
  "env \<Rightarrow> string \<Rightarrow> resource \<Rightarrow> int list \<Rightarrow> outcome list \<times> crawler
     \<Rightarrow> exn + (outcome list \<times> crawler)" where
  "check_codes env api resource [] (results, st) = Inr (results, st)"
| "check_codes env api resource (response_code # codes) (results, st) =
     (if response_code = 200 then
        (case check_api_resource env resource response_code api st of
           Inl e \<Rightarrow> Inl e
         | Inr (result, st') \<Rightarrow>
             check_codes env api resource codes
               (case result of None \<Rightarrow> results | Some r \<Rightarrow> results @ [r], st'))
      else check_codes env api resource codes (results, st))"

fun check_reads ::
  "env \<Rightarrow> string \<Rightarrow> resource list \<Rightarrow> outcome list \<times> crawler
     \<Rightarrow> exn + (outcome list \<times> crawler)" where
  "check_reads env api [] acc = Inr acc"
| "check_reads env api (resource # rest) acc =
     (case check_codes env api resource (responses (snd resource)) acc of
        Inl e \<Rightarrow> Inl e
      | Inr acc' \<Rightarrow> check_reads env api rest acc')"

definition check_base_paths ::
  "env \<Rightarrow> string \<Rightarrow> outcome list \<times> crawler \<Rightarrow> exn + (outcome list \<times> crawler)" where
  "check_base_paths env api acc =
     (case check_base_path env (clock (snd acc)) ''/'' ''x-nmos/'' of
        Inl e \<Rightarrow> Inl e
      | Inr r1 \<Rightarrow>
     (case check_base_path env (clock (snd acc) + 1) ''/x-nmos'' (api @ ''/'') of
        Inl e \<Rightarrow> Inl e
      | Inr r2 \<Rightarrow>
     (case check_base_path env (clock (snd acc) + 2) (''/x-nmos/'' @ api) (test_version env @ ''/'') of
        Inl e \<Rightarrow> Inl e
      | Inr r3 \<Rightarrow> Inr (fst acc @ [r1, r2, r3], (snd acc)\<lparr>clock := clock (snd acc) + 3\<rparr>))))"

fun basics_loop ::
  "env \<Rightarrow> string list \<Rightarrow> outcome list \<times> crawler \<Rightarrow> exn + (outcome list \<times> crawler)" where
  "basics_loop env [] acc = Inr acc"
| "basics_loop env (api # rest) acc =
     (case check_base_paths env api acc of
        Inl e \<Rightarrow> Inl e
      | Inr acc1 \<Rightarrow>
          (case check_reads env api (get_reads env api) acc1 of
             Inl e \<Rightarrow> Inl e
           | Inr acc2 \<Rightarrow> basics_loop env rest acc2))"

definition basics :: "env \<Rightarrow> crawler \<Rightarrow> exn + (outcome list \<times> crawler)" where
  "basics env st = basics_loop env (apis env) ([], st)"

section \<open>IS0702Test: the ext parameters of a sender (test_01)\<close>









section \<open>IS0702Test: the WebSocket lifecycle (test_04)\<close>

definition WS_HEARTBEAT_INTERVAL :: real where
  "WS_HEARTBEAT_INTERVAL = 5"

definition WS_TIMEOUT :: real where
  "WS_TIMEOUT = 12"

text \<open>
  What \<^verbatim>\<open>test_04\<close> calls outside the sources: \<^verbatim>\<open>json.loads\<close>, the helper
  \<^verbatim>\<open>compare_resource_version\<close> of \<^verbatim>\<open>IS04Utils\<close> (documented upstream to return 1
  when its first argument is the later one, -1 when it is the earlier one, 0 when both are
  equal), and the printing of a value or of an exception by \<^verbatim>\<open>format\<close>.
\<close>

record helpers =
  loads :: "string \<Rightarrow> exn + jvalue"
  compare_resource_version :: "jvalue \<Rightarrow> string \<Rightarrow> exn + int"
  str_json :: "jvalue \<Rightarrow> string"
  str_exn :: "exn \<Rightarrow> string"

text \<open>
  The body of the \<^verbatim>\<open>try\<close> block that inspects the single reply of a connection, in
  three pieces: the creation timestamp, the timing object, the message type. Each returns
  the failure it found, \<open>None\<close> when it found none, or the exception raised.
  \<open>timestamp\<close> is \<^verbatim>\<open>health_command["timestamp"]\<close>, the string that
  \<^verbatim>\<open>get_TAI_time()\<close> returned (seconds and nanoseconds, as \<^verbatim>\<open>getTAITime\<close> of
  \<^verbatim>\<open>GenericTest\<close> builds it).
\<close>

definition check_creation_timestamp ::
  "helpers \<Rightarrow> string \<Rightarrow> string \<Rightarrow> string \<Rightarrow> jvalue \<Rightarrow> exn + outcome option" where
  "check_creation_timestamp h test connection_uri timestamp timing =
     (case py_in ''creation_timestamp'' timing of
        Inl e \<Rightarrow> Inl e
      | Inr present \<Rightarrow>
          if present then
            (case py_getitem timing ''creation_timestamp'' of
               Inl e \<Rightarrow> Inl e
             | Inr creation_timestamp \<Rightarrow>
                 (case compare_resource_version h creation_timestamp timestamp of
                    Inl e \<Rightarrow> Inl e
                  | Inr c \<Rightarrow>
                      if c \<noteq> 1 then
                        Inr (Some (FAIL test
                          (''WebSocket '' @ connection_uri
                           @ '' health response creation_timestamp expected to''
                           @ ''be later than origin. creation_timestamp was ''
                           @ str_json h creation_timestamp)))
                      else Inr None))
          else Inr (Some (FAIL test
                 (''WebSocket '' @ connection_uri @ '' health response''
                  @ ''does not have creation_timestamp''))))"

definition check_timing ::
  "helpers \<Rightarrow> string \<Rightarrow> string \<Rightarrow> string \<Rightarrow> jvalue \<Rightarrow> exn + outcome option" where
  "check_timing h test connection_uri timestamp message =
     (case py_in ''timing'' message of
        Inl e \<Rightarrow> Inl e
      | Inr has_timing \<Rightarrow>
          if has_timing then
            (case py_getitem message ''timing'' of
               Inl e \<Rightarrow> Inl e
             | Inr timing \<Rightarrow>
                 (case py_in ''origin_timestamp'' timing of
                    Inl e \<Rightarrow> Inl e
                  | Inr has_origin \<Rightarrow>
                      if has_origin then
                        (case py_getitem timing ''origin_timestamp'' of
                           Inl e \<Rightarrow> Inl e
                         | Inr origin_timestamp \<Rightarrow>
                             if origin_timestamp \<noteq> JStr timestamp then
                               Inr (Some (FAIL test
                                 (''WebSocket '' @ connection_uri
                                  @ '' health response origin_timestamp is not ''
                                  @ ''set to the original timestamp but instead is ''
                                  @ str_json h origin_timestamp)))
                             else check_creation_timestamp h test connection_uri timestamp timing)
                      else Inr (Some (FAIL test
                             (''WebSocket '' @ connection_uri @ '' health response''
                              @ ''does not have origin_timestamp'')))))
          else Inr (Some (FAIL test
                 (''WebSocket '' @ connection_uri @ '' health response''
                  @ ''does not have a timing object''))))"

definition check_health_message ::
  "helpers \<Rightarrow> string \<Rightarrow> string \<Rightarrow> string \<Rightarrow> string \<Rightarrow> exn + outcome option" where
  "check_health_message h test connection_uri timestamp raw =
     (case loads h raw of
        Inl e \<Rightarrow> Inl e
      | Inr message \<Rightarrow>
          (case py_in ''message_type'' message of
             Inl e \<Rightarrow> Inl e
           | Inr has_type \<Rightarrow>
               if has_type then
                 (case py_getitem message ''message_type'' of
                    Inl e \<Rightarrow> Inl e
                  | Inr message_type \<Rightarrow>
                      if message_type \<noteq> JStr ''health'' then
                        Inr (Some (FAIL test
                          (''WebSocket '' @ connection_uri
                           @ '' health response message_type is not ''
                           @ ''set to health but instead is '' @ str_json h message_type)))
                      else check_timing h test connection_uri timestamp message)
               else Inr (Some (FAIL test
                      (''WebSocket '' @ connection_uri @ '' health response''
                       @ ''does not have a message_type'')))))"

text \<open>
  The loop over \<^verbatim>\<open>websockets_with_health\<close> after the wait for replies. Its input is,
  per connection in dictionary order, the URI and what \<^verbatim>\<open>get_messages()\<close> returned.
  \<open>None\<close>: no failure, the test goes on to the next phase.
\<close>

fun health_responses ::
  "helpers \<Rightarrow> string \<Rightarrow> string \<Rightarrow> (string \<times> string list) list \<Rightarrow> outcome option" where
  "health_responses h test timestamp [] = None"
| "health_responses h test timestamp ((connection_uri, messages) # rest) =
     (if length messages = 0 then
        Some (FAIL test (''WebSocket '' @ connection_uri
                         @ '' did not respond with a health response''
                         @ ''to the health command''))
      else if length messages > 1 then
        Some (FAIL test (''WebSocket '' @ connection_uri
                         @ '' responded with more than 1 message''
                         @ ''to the health command''))
      else
        (case check_health_message h test connection_uri timestamp (messages ! 0) of
           Inl e \<Rightarrow>
             Some (FAIL test (''WebSocket '' @ connection_uri
                              @ '' health response cannot be parsed''
                              @ ''exception '' @ str_exn h e))
         | Inr (Some failure) \<Rightarrow> Some failure
         | Inr None \<Rightarrow> health_responses h test timestamp rest))"

text \<open>
  The loop that follows, over \<^verbatim>\<open>websockets_no_health\<close>:
  \<^verbatim>\<open>while time.time() < start_time + WS_TIMEOUT - 1\<close>. Time is a real number of
  seconds; \<open>now\<close> is what \<^verbatim>\<open>time.time()\<close> reads when the loop condition is tested,
  \<open>is_open uri t\<close> is what \<^verbatim>\<open>is_open()\<close> of the connection to \<open>uri\<close> answers at time
  \<open>t\<close>, and \<^verbatim>\<open>time.sleep(1)\<close> is the only statement that takes time: one second.
\<close>

function stay_open_no_health ::
  "(string \<Rightarrow> real \<Rightarrow> bool) \<Rightarrow> string \<Rightarrow> string list \<Rightarrow> real \<Rightarrow> real \<Rightarrow> outcome option" where
  "stay_open_no_health is_open test uris start_time now =
     (if now < start_time + WS_TIMEOUT - 1 then
        (case find (\<lambda>connection_uri. \<not> is_open connection_uri now) uris of
           Some connection_uri \<Rightarrow>
             Some (FAIL test (''WebSocket connection (no health cmd sent) to '' @ connection_uri
                              @ '' was closed too early''))
         | None \<Rightarrow> stay_open_no_health is_open test uris start_time (now + 1))
      else None)"
  by pat_completeness auto
termination
  by (relation "measure (\<lambda>(is_open, test, uris, start_time, now).
                  nat \<lceil>start_time + WS_TIMEOUT - 1 - now\<rceil>)") (auto, linarith)

declare stay_open_no_health.simps [simp del]

section \<open>Runs of the crawler\<close>

text \<open>
  The states in which \<^verbatim>\<open>basics\<close> can call \<^verbatim>\<open>check_api_resource\<close>: the state of a
  fresh test object, and whatever a call of \<^verbatim>\<open>check_api_resource\<close> or the three
  base-path checks of an API leave behind.
\<close>

inductive reachable :: "env \<Rightarrow> crawler \<Rightarrow> bool" for env :: env where
  start: "reachable env init_crawler"
| resource_step:
    "reachable env st \<Longrightarrow>
     check_api_resource env resource response_code api st = Inr (result, st') \<Longrightarrow>
     reachable env st'"
| base_step:
    "reachable env st \<Longrightarrow>
     check_base_paths env api (results, st) = Inr (results', st') \<Longrightarrow>
     reachable env st'"

text \<open>
  Two properties of a crawler state. No cache entry is empty. Every identifier of a cache
  entry is among the identifiers harvested from a response that is on record for the path
  of that entry, and every response on record was returned by \<open>do_request\<close> to an earlier
  request of the run.
\<close>

definition nonempty_entries :: "crawler \<Rightarrow> bool" where
  "nonempty_entries st =
     (\<forall>path saved. saved_entities st path = Some saved \<longrightarrow> saved \<noteq> [])"

definition harvested_from :: "env \<Rightarrow> crawler \<Rightarrow> string \<Rightarrow> jvalue \<Rightarrow> bool" where
  "harvested_from env st path entity =
     (\<exists>meth url resp n.
        (meth, url, path, resp) \<in> set (received st)
        \<and> entity \<in> set (subresources_of resp)
        \<and> n < clock st
        \<and> do_request env n meth url = Inr resp)"

definition harvested_only :: "env \<Rightarrow> crawler \<Rightarrow> bool" where
  "harvested_only env st =
     (\<forall>path saved entity.
        saved_entities st path = Some saved \<longrightarrow> entity \<in> set saved \<longrightarrow>
        harvested_from env st path entity)"

text \<open>The names and the verdicts of the outcomes that a run of \<^verbatim>\<open>basics\<close> reports.\<close>

definition reported_names :: "exn + (outcome list \<times> crawler) \<Rightarrow> string list option" where
  "reported_names run = (case run of Inl e \<Rightarrow> None | Inr (results, st) \<Rightarrow> Some (map name results))"

definition reported_states :: "exn + (outcome list \<times> crawler) \<Rightarrow> verdict list option" where
  "reported_states run = (case run of Inl e \<Rightarrow> None | Inr (results, st) \<Rightarrow> Some (map state results))"

section \<open>The specification's wording, for comparison\<close>

text \<open>
  What one entry of a list response contributes, in the words of the specification: an
  object with an \<^verbatim>\<open>id\<close> field contributes that id, a string ending in the path separator
  contributes the string without its trailing separators, anything else contributes
  nothing.
\<close>

fun spec_entry_id :: "jvalue \<Rightarrow> jvalue option" where
  "spec_entry_id (JObj d) = map_of d ''id''"
| "spec_entry_id (JStr s) =
     (if s \<noteq> [] \<and> last s = CHR ''/'' then Some (JStr (rstrip s CHR ''/'')) else None)"
| "spec_entry_id JNull = None"
| "spec_entry_id (JBool b) = None"
| "spec_entry_id (JNum n) = None"
| "spec_entry_id (JArr xs) = None"

definition spec_harvested_ids :: "jvalue list \<Rightarrow> jvalue list" where
  "spec_harvested_ids entries = List.map_filter spec_entry_id entries"

text \<open>
  The origin and the creation timestamp of a health reply, read the way the test reads
  them: \<^verbatim>\<open>message["timing"]["origin_timestamp"]\<close> and
  \<^verbatim>\<open>message["timing"]["creation_timestamp"]\<close> of the decoded reply.
\<close>

definition reply_timing_field :: "helpers \<Rightarrow> string \<Rightarrow> string \<Rightarrow> jvalue option" where
  "reply_timing_field h field raw =
     (case loads h raw of
        Inl e \<Rightarrow> None
      | Inr message \<Rightarrow>
          (case py_getitem message ''timing'' of
             Inl e \<Rightarrow> None
           | Inr timing \<Rightarrow>
               (case py_getitem timing field of
                  Inl e \<Rightarrow> None
                | Inr v \<Rightarrow> Some v)))"

definition reply_origin :: "helpers \<Rightarrow> string \<Rightarrow> jvalue option" where
  "reply_origin h raw = reply_timing_field h ''origin_timestamp'' raw"

definition reply_creation :: "helpers \<Rightarrow> string \<Rightarrow> jvalue option" where
  "reply_creation h raw = reply_timing_field h ''creation_timestamp'' raw"





section \<open>Concrete inputs\<close>

text \<open>
  A header dictionary printed the way Python prints a dictionary of plain strings:
  \<^verbatim>\<open>{'name': 'value', ...}\<close>.
\<close>

fun join_str :: "string \<Rightarrow> string list \<Rightarrow> string" where
  "join_str sep [] = []"
| "join_str sep [x] = x"
| "join_str sep (x # y # ys) = x @ sep @ join_str sep (y # ys)"

text \<open>
  \<^verbatim>\<open>repr\<close> of a string of printable characters: in apostrophes, or in double quotes
  when the string has an apostrophe and no double quote; a backslash is doubled, and the
  quote in use is escaped.
\<close>

definition py_repr :: "string \<Rightarrow> string" where
  "py_repr s =
     (if CHR 0x27 \<in> set s \<and> CHR 0x22 \<notin> set s then
        [CHR 0x22]
        @ concat (map (\<lambda>c. if c = CHR 0x5C then [CHR 0x5C, CHR 0x5C] else [c]) s)
        @ [CHR 0x22]
      else
        [CHR 0x27]
        @ concat (map (\<lambda>c. if c = CHR 0x5C then [CHR 0x5C, CHR 0x5C]
                            else if c = CHR 0x27 then [CHR 0x5C, CHR 0x27]
                            else [c]) s)
        @ [CHR 0x27])"

definition repr_headers :: "(string \<times> string) list \<Rightarrow> string" where
  "repr_headers hs =
     ''{'' @ join_str '', '' (map (\<lambda>(k, v). py_repr k @ '': '' @ py_repr v) hs) @ ''}''"

text \<open>
  An implementation under test with one API, \<^verbatim>\<open>node\<close>, that declares a collection
  \<^verbatim>\<open>/widgets\<close>, its members and the parts of a member. \<^verbatim>\<open>GET /widgets\<close> answers
  \<^verbatim>\<open>[{"id": "a"}, {"id": "b"}]\<close>.
\<close>

definition cors_headers :: "(string \<times> string) list" where
  "cors_headers = [(''Access-Control-Allow-Origin'', ''*'')]"

definition widgets_response :: response where
  "widgets_response =
     \<lparr>status_code = 200, headers = cors_headers,
      json = Some (JArr [JObj [(''id'', JStr ''a'')], JObj [(''id'', JStr ''b'')]])\<rparr>"

definition widget_a_response :: response where
  "widget_a_response =
     \<lparr>status_code = 200, headers = cors_headers, json = Some (JObj [(''id'', JStr ''a'')])\<rparr>"

definition base_response :: response where
  "base_response =
     \<lparr>status_code = 200, headers = cors_headers,
      json = Some (JArr [JStr ''x-nmos/'', JStr ''node/'', JStr ''v1.0/''])\<rparr>"

definition widgets_resource :: resource where
  "widgets_resource = (''/widgets'', \<lparr>http_method = ''get'', params = [], responses = [200]\<rparr>)"

definition widget_resource :: resource where
  "widget_resource =
     (''/widgets/{widgetId}'', \<lparr>http_method = ''get'', params = [''widgetId''], responses = [200]\<rparr>)"

definition part_resource :: resource where
  "part_resource =
     (''/widgets/{widgetId}/parts/{partId}'',
      \<lparr>http_method = ''get'', params = [''widgetId'', ''partId''], responses = [200]\<rparr>)"

definition array_schema :: jvalue where
  "array_schema = JObj [(''type'', JStr ''array'')]"

definition object_schema :: jvalue where
  "object_schema = JObj [(''type'', JStr ''object'')]"

text \<open>A validator that knows the two schemas above.\<close>

definition example_validate :: "jvalue \<Rightarrow> jvalue \<Rightarrow> validation" where
  "example_validate body schema =
     (if schema = array_schema then
        (case body of JArr xs \<Rightarrow> Valid | _ \<Rightarrow> ValidationError ''value is not of type array'')
      else if schema = object_schema then
        (case body of JObj kvs \<Rightarrow> Valid | _ \<Rightarrow> ValidationError ''value is not of type object'')
      else ValidationAbort ''unknown schema'')"

definition example_env :: env where
  "example_env =
     \<lparr>base_url = ''http://iut'',
      test_version = ''v1.0'',
      apis = [''node''],
      api_url = (\<lambda>api. ''http://iut/x-nmos/node/v1.0/''),
      get_reads = (\<lambda>api. [widgets_resource, widget_resource, part_resource]),
      get_schema = (\<lambda>api meth path code.
                      if path = ''/widgets'' then Some array_schema else Some object_schema),
      validate = example_validate,
      do_request = (\<lambda>n meth url.
                      if url = ''http://iut/x-nmos/node/v1.0/widgets'' then Inr widgets_response
                      else if url = ''http://iut/x-nmos/node/v1.0/widgets/a'' then Inr widget_a_response
                      else Inl ''Connection timeout''),
      requests_get = (\<lambda>n url. Inr base_response),
      str_headers = repr_headers\<rparr>"

text \<open>The crawler after \<^verbatim>\<open>GET /widgets\<close> in that environment.\<close>

definition after_widgets :: crawler where
  "after_widgets =
     \<lparr>saved_entities = [''/widgets'' \<mapsto> [JStr ''a'', JStr ''b'']],
      clock = 1,
      received = [(''get'', ''http://iut/x-nmos/node/v1.0/widgets'', ''/widgets'', widgets_response)]\<rparr>"





text \<open>
  A response to a POST that has the allow-origin and the allow-headers header, and no
  allow-methods header.
\<close>

definition post_response :: response where
  "post_response =
     \<lparr>status_code = 200,
      headers = [(''Access-Control-Allow-Origin'', ''*''),
                 (''Access-Control-Allow-Headers'', ''Content-Type'')],
      json = Some (JObj [(''id'', JStr ''a'')])\<rparr>"

text \<open>
  Helpers for the health replies of the examples: the reply is looked up in a table of
  decoded messages, and timestamps are decimal numerals, the longer or, at equal length,
  the lexicographically greater being the later.
\<close>

definition numeral_later :: "string \<Rightarrow> string \<Rightarrow> bool" where
  "numeral_later a b = (length b < length a \<or> (length a = length b \<and> b < a))"

definition example_compare :: "jvalue \<Rightarrow> string \<Rightarrow> exn + int" where
  "example_compare v timestamp =
     (case v of
        JStr s \<Rightarrow> Inr (if numeral_later s timestamp then 1 else if s = timestamp then 0 else - 1)
      | _ \<Rightarrow> Inl TypeError)"

definition health_reply :: "string \<Rightarrow> string \<Rightarrow> jvalue" where
  "health_reply origin creation =
     JObj [(''message_type'', JStr ''health''),
           (''timing'', JObj [(''origin_timestamp'', JStr origin),
                              (''creation_timestamp'', JStr creation)])]"

definition example_helpers :: helpers where
  "example_helpers =
     \<lparr>loads = (\<lambda>raw. if raw = ''early'' then Inr (health_reply ''1000'' ''999'')
                      else if raw = ''late'' then Inr (health_reply ''1000'' ''1001'')
                      else Inl JSONDecodeError),
      compare_resource_version = example_compare,
      str_json = (\<lambda>v. case v of JStr s \<Rightarrow> s | _ \<Rightarrow> ''?''),
      str_exn = (\<lambda>e. ''error'')\<rparr>"



text \<open>
  A list response that mixes the two forms: an object with an id, a path string with
  two trailing separators, a string without separator, an object without id, a number.
\<close>

definition mixed_response :: response where
  "mixed_response =
     \<lparr>status_code = 200, headers = cors_headers,
      json = Some (JArr [JObj [(''id'', JStr ''c'')], JStr ''d//'', JStr ''e'',
                         JObj [(''label'', JStr ''f'')], JNum 7])\<rparr>"

text \<open>A connection that answers \<^verbatim>\<open>is_open()\<close> with true before the given time.\<close>

definition open_until :: "real \<Rightarrow> string \<Rightarrow> real \<Rightarrow> bool" where
  "open_until limit uri t = (t < limit)"

section \<open>Facts for evaluation\<close>

lemmas example_defs = example_env_def example_validate_def array_schema_def object_schema_def
  widgets_response_def widget_a_response_def base_response_def cors_headers_def
  widgets_resource_def widget_resource_def part_resource_def post_response_def

lemma startswith_Nil [simp]: "startswith s [] = True"
  by (simp add: startswith_def)

lemma startswith_Nil_Cons [simp]: "startswith [] (c # p) = False"
  by (simp add: startswith_def)

lemma startswith_Cons_Cons [simp]: "startswith (a # s) (c # p) = (a = c \<and> startswith s p)"
  by (auto simp add: startswith_def)


section \<open>Validation of a response\<close>

lemma validate_CORS_json_update:
  "validate_CORS meth (resp\<lparr>json := b\<rparr>) = validate_CORS meth resp"
  by (simp add: validate_CORS_def split: option.splits)

text \<open>
  C7, as the code has it. When the CORS headers are accepted, a schema is found, the
  body parses as JSON and the validator raises a validation error, \<^verbatim>\<open>check_response\<close>
  returns FAIL with the fixed message \<^verbatim>\<open>Response schema validation error\<close>, whatever
  the validator's diagnostic says; the same response with a body that does not parse
  gets FAIL with the message \<^verbatim>\<open>Invalid JSON received\<close>, and the two outcomes differ.
\<close>

theorem check_response_schema_violation:
  assumes "validate_CORS meth resp = Inr True"
    and "get_schema env api_name meth path (status_code resp) = Some schema"
    and "truthy schema"
    and "json resp = Some body"
    and "validate env body schema = ValidationError diagnostic"
  shows "check_response env test api_name meth path resp
           = Inr (FAIL test ''Response schema validation error'')
         \<and> check_response env test api_name meth path (resp\<lparr>json := None\<rparr>)
           = Inr (FAIL test ''Invalid JSON received'')
         \<and> FAIL test ''Response schema validation error'' \<noteq> FAIL test ''Invalid JSON received''"
proof -
  have cors: "validate_CORS meth (resp\<lparr>json := None\<rparr>) = Inr True"
    using assms(1) by (simp add: validate_CORS_json_update)
  have first: "check_response env test api_name meth path resp
           = Inr (FAIL test ''Response schema validation error'')"
    using assms by (simp add: check_response_def)
  have second: "check_response env test api_name meth path (resp\<lparr>json := None\<rparr>)
           = Inr (FAIL test ''Invalid JSON received'')"
    using cors assms(2,3) by (simp add: check_response_def)
  have third: "FAIL test ''Response schema validation error'' \<noteq> FAIL test ''Invalid JSON received''"
    by (simp add: FAIL_def)
  from first second third show ?thesis by blast
qed

theorem check_response_schema_violation_witness:
  "check_response example_env ''t'' ''node'' ''get'' ''/widgets'' widget_a_response
     = Inr (FAIL ''t'' ''Response schema validation error'')
   \<and> check_response example_env ''t'' ''node'' ''get'' ''/widgets'' (widget_a_response\<lparr>json := None\<rparr>)
     = Inr (FAIL ''t'' ''Invalid JSON received'')"
proof -
  have a: "validate_CORS ''get'' widget_a_response = Inr True"
    by code_simp
  have b: "get_schema example_env ''node'' ''get'' ''/widgets'' (status_code widget_a_response)
             = Some array_schema"
    by (simp add: example_defs)
  have c: "truthy array_schema"
    by (simp add: array_schema_def)
  have d: "json widget_a_response = Some (JObj [(''id'', JStr ''a'')])"
    by (simp add: example_defs)
  have e: "validate example_env (JObj [(''id'', JStr ''a'')]) array_schema
             = ValidationError ''value is not of type array''"
    by (simp add: example_defs)
  show ?thesis
    using check_response_schema_violation [OF a b c d e, of "''t''"] by simp
qed

text \<open>
  C7 as the specification words it fails: the object \<^verbatim>\<open>{"id": "a"}\<close> sent where an
  array is declared makes the validator say \<^verbatim>\<open>value is not of type array\<close>, and the
  message of the FAIL does not contain that text.
\<close>

theorem check_response_diagnostic_counterexample:
  "validate example_env (JObj [(''id'', JStr ''a'')]) array_schema
     = ValidationError ''value is not of type array''
   \<and> check_response example_env ''t'' ''node'' ''get'' ''/widgets'' widget_a_response
     = Inr (FAIL ''t'' ''Response schema validation error'')
   \<and> \<not> contains_str ''Response schema validation error'' ''value is not of type array''"
  by code_simp

lemma validate_CORS_no_allow_methods:
  assumes "meth \<in> set [''OPTIONS'', ''POST'', ''PUT'', ''PATCH'', ''DELETE'']"
    and "\<not> header_in ''Access-Control-Allow-Methods'' (headers resp)"
  shows "validate_CORS meth resp \<noteq> Inr True"
  using assms by (auto simp add: validate_CORS_def header_in_def split: option.splits)

text \<open>
  The header name that \<^verbatim>\<open>validate_CORS\<close> tests for presence is
  \<^verbatim>\<open>Access-Control-Allow-Method\<close>, the one it reads is
  \<^verbatim>\<open>Access-Control-Allow-Methods\<close>: a response with the former and without the latter
  raises \<^verbatim>\<open>KeyError\<close>.
\<close>

lemma validate_CORS_misspelt_header_raises:
  "validate_CORS ''POST''
     \<lparr>status_code = 200,
      headers = [(''Access-Control-Allow-Origin'', ''*''),
                 (''Access-Control-Allow-Headers'', ''Content-Type, POST''),
                 (''Access-Control-Allow-Method'', ''POST'')],
      json = None\<rparr>
   = Inl (KeyError ''access-control-allow-methods'')"
  by code_simp

text \<open>
  C6, as the code has it. For a request with a mutating method whose response lacks the
  \<^verbatim>\<open>Access-Control-Allow-Methods\<close> header, every outcome that \<^verbatim>\<open>check_response\<close>
  returns is FAIL, whatever the body and the status code are, and its message is
  \<^verbatim>\<open>Incorrect CORS headers: \<close> followed by the printed headers of the response.
\<close>

theorem check_response_missing_allow_methods:
  assumes "meth \<in> set [''OPTIONS'', ''POST'', ''PUT'', ''PATCH'', ''DELETE'']"
    and "\<not> header_in ''Access-Control-Allow-Methods'' (headers resp)"
    and "check_response env test api_name meth path resp = Inr result"
  shows "result = FAIL test (''Incorrect CORS headers: '' @ str_headers env (headers resp))"
proof (cases "validate_CORS meth resp")
  case (Inl e)
  with assms(3) show ?thesis by (simp add: check_response_def)
next
  case (Inr cors)
  with validate_CORS_no_allow_methods [OF assms(1,2)] have "\<not> cors" by auto
  with Inr assms(3) show ?thesis by (simp add: check_response_def)
qed

lemma example_post_headers:
  "\<not> header_in ''Access-Control-Allow-Methods'' (headers post_response)"
  "validate_CORS ''POST'' post_response = Inr False"
  "repr_headers (headers post_response)
     = ''{'Access-Control-Allow-Origin': '*', 'Access-Control-Allow-Headers': 'Content-Type'}''"
  by code_simp+

lemma example_post_check:
  "check_response example_env ''t'' ''node'' ''POST'' ''/widgets'' post_response
     = Inr (FAIL ''t'' ''Incorrect CORS headers: {'Access-Control-Allow-Origin': '*', 'Access-Control-Allow-Headers': 'Content-Type'}'')"
  by (simp add: check_response_def example_post_headers example_env_def FAIL_def)

lemma example_post_message:
  "\<not> contains_str ''Incorrect CORS headers: {'Access-Control-Allow-Origin': '*', 'Access-Control-Allow-Headers': 'Content-Type'}''
         ''Access-Control-Allow-Methods''"
  by code_simp

theorem check_response_missing_allow_methods_witness:
  "''POST'' \<in> set [''OPTIONS'', ''POST'', ''PUT'', ''PATCH'', ''DELETE'']
   \<and> \<not> header_in ''Access-Control-Allow-Methods'' (headers post_response)
   \<and> check_response example_env ''t'' ''node'' ''POST'' ''/widgets'' post_response
       = Inr (FAIL ''t'' ''Incorrect CORS headers: {'Access-Control-Allow-Origin': '*', 'Access-Control-Allow-Headers': 'Content-Type'}'')
   \<and> FAIL ''t'' ''Incorrect CORS headers: {'Access-Control-Allow-Origin': '*', 'Access-Control-Allow-Headers': 'Content-Type'}''
       = FAIL ''t'' (''Incorrect CORS headers: '' @ str_headers example_env (headers post_response))"
proof -
  have a: "''POST'' \<in> set [''OPTIONS'', ''POST'', ''PUT'', ''PATCH'', ''DELETE'']"
    by simp
  note b = example_post_headers(1)
  note c = example_post_check
  have d: "FAIL ''t'' ''Incorrect CORS headers: {'Access-Control-Allow-Origin': '*', 'Access-Control-Allow-Headers': 'Content-Type'}''
       = FAIL ''t'' (''Incorrect CORS headers: '' @ str_headers example_env (headers post_response))"
    by (rule check_response_missing_allow_methods [OF a b c])
  from a b c d show ?thesis
    by blast
qed

text \<open>
  C6 as the specification words it fails: the response to a POST with the allow-origin and
  the allow-headers header and without the allow-methods header gets a FAIL whose message
  prints the two headers received; the name of the missing header is not in it.
\<close>

theorem check_response_header_name_counterexample:
  "\<not> header_in ''Access-Control-Allow-Methods'' (headers post_response)
   \<and> check_response example_env ''t'' ''node'' ''POST'' ''/widgets'' post_response
     = Inr (FAIL ''t'' ''Incorrect CORS headers: {'Access-Control-Allow-Origin': '*', 'Access-Control-Allow-Headers': 'Content-Type'}'')
   \<and> \<not> contains_str ''Incorrect CORS headers: {'Access-Control-Allow-Origin': '*', 'Access-Control-Allow-Headers': 'Content-Type'}''
         ''Access-Control-Allow-Methods''"
  by (simp add: example_post_headers example_post_check example_post_message)

section \<open>Endpoints with more than one parameter\<close>

lemma multi_param_none:
  assumes "1 < length (params (snd resource))"
  shows "check_api_resource env resource response_code api st = Inr (None, st)"
  using assms by (auto simp add: check_api_resource_def)

lemma check_codes_multi_param:
  assumes "1 < length (params (snd resource))"
  shows "check_codes env api resource codes acc = Inr acc"
proof (induction codes)
  case Nil
  show ?case by (cases acc) simp
next
  case (Cons c codes)
  then show ?case by (cases acc) (simp add: multi_param_none [OF assms])
qed

lemma check_reads_append:
  "check_reads env api (xs @ ys) acc =
     (case check_reads env api xs acc of
        Inl e \<Rightarrow> Inl e
      | Inr acc' \<Rightarrow> check_reads env api ys acc')"
  by (induction xs arbitrary: acc) (auto split: sum.splits)

text \<open>
  C5, as the code has it. For a declared read endpoint with more than one parameter
  \<^verbatim>\<open>check_api_resource\<close> returns \<^verbatim>\<open>None\<close> and leaves the crawler as it was (no
  request, no change of the cache); \<^verbatim>\<open>basics\<close> appends nothing for it, so that the
  outcomes and the state after walking the declared endpoints are those of the same walk
  without that endpoint.
\<close>

theorem multi_param_resource_skipped:
  assumes "1 < length (params (snd resource))"
  shows "check_api_resource env resource response_code api st = Inr (None, st)
         \<and> check_codes env api resource codes acc = Inr acc
         \<and> check_reads env api (before @ resource # after) acc
             = check_reads env api (before @ after) acc"
proof -
  have "check_reads env api (before @ resource # after) acc
             = check_reads env api (before @ after) acc"
    by (simp add: check_reads_append check_codes_multi_param [OF assms] split: sum.splits)
  with multi_param_none [OF assms] check_codes_multi_param [OF assms] show ?thesis by blast
qed

theorem multi_param_resource_skipped_witness:
  "1 < length (params (snd part_resource))
   \<and> check_api_resource example_env part_resource 200 ''node'' after_widgets
       = Inr (None, after_widgets)
   \<and> check_reads example_env ''node'' ([widgets_resource, widget_resource] @ part_resource # [])
         ([], init_crawler)
       = check_reads example_env ''node'' ([widgets_resource, widget_resource] @ []) ([], init_crawler)"
proof -
  have a: "1 < length (params (snd part_resource))"
    by (simp add: part_resource_def)
  from a multi_param_resource_skipped [OF a] show ?thesis by blast
qed

text \<open>
  C5 as the specification words it fails: the example API declares
  \<^verbatim>\<open>/widgets/{widgetId}/parts/{partId}\<close> among its read endpoints, and the run of
  \<^verbatim>\<open>basics\<close> reports five outcomes, the three base paths, the collection and its first
  member; none is about the endpoint with two parameters.
\<close>

theorem basics_drops_multi_param_counterexample:
  "part_resource \<in> set (get_reads example_env ''node'')
   \<and> 1 < length (params (snd part_resource))
   \<and> reported_names (basics example_env init_crawler)
       = Some [''GET /'', ''GET /x-nmos'', ''GET /x-nmos/node'',
               ''GET /x-nmos/node/v1.0/widgets'', ''GET /x-nmos/node/v1.0/widgets/a'']
   \<and> reported_states (basics example_env init_crawler) = Some [Pass, Pass, Pass, Pass, Pass]"
  by code_simp

section \<open>Endpoints with one parameter\<close>



lemma save_subresources_received [simp]:
  "received (save_subresources path resp st) = received st"
  by (simp add: save_subresources_def Let_def split: option.splits)

lemma save_subresources_clock [simp]:
  "clock (save_subresources path resp st) = clock st"
  by (simp add: save_subresources_def Let_def split: option.splits)



lemma check_api_resource_first_id:
  assumes "params (snd resource) = [p]"
    and "saved_entities st (collection_path (fst resource)) = Some (JStr ident # others)"
  shows "check_api_resource env resource response_code api st
           = request_and_check env resource response_code api
               (rstrip (api_url env api) CHR ''/'' @ replace (fst resource) (''{'' @ p @ ''}'') ident)
               (test_name env (http_method (snd resource)) api
                  (replace (fst resource) (''{'' @ p @ ''}'') ident))
               st"
  using assms by (simp add: check_api_resource_def Let_def)








section \<open>Harvesting identifiers\<close>

lemma endswith_slash: "endswith s ''/'' = (s \<noteq> [] \<and> last s = CHR ''/'')"
proof (cases s rule: rev_cases)
  case Nil
  then show ?thesis by (simp add: endswith_def)
next
  case (snoc ys y)
  then show ?thesis by (auto simp add: endswith_def)
qed

lemma harvest_spec: "harvest acc entries = acc @ spec_harvested_ids entries"
proof (induction entries arbitrary: acc)
  case Nil
  show ?case by (simp add: spec_harvested_ids_def)
next
  case (Cons entry entries)
  show ?case
    by (cases entry)
       (auto simp add: Cons.IH spec_harvested_ids_def endswith_slash
          split: option.splits)
qed

lemma subresources_of_array:
  assumes "json resp = Some (JArr entries)"
  shows "subresources_of resp = spec_harvested_ids entries"
  using assms by (simp add: subresources_of_def harvest_spec)

lemma save_subresources_other:
  "other \<noteq> path \<Longrightarrow> saved_entities (save_subresources path resp st) other = saved_entities st other"
  by (simp add: save_subresources_def Let_def split: option.splits)

lemma save_subresources_path:
  "saved_entities (save_subresources path resp st) path =
     (if subresources_of resp = [] then saved_entities st path
      else Some ((case saved_entities st path of None \<Rightarrow> [] | Some saved \<Rightarrow> saved)
                 @ subresources_of resp))"
  by (simp add: save_subresources_def Let_def split: option.splits)

lemma save_subresources_nothing:
  "subresources_of resp = [] \<Longrightarrow> save_subresources path resp st = st"
  by (simp add: save_subresources_def)

lemma save_subresources_extends:
  assumes "saved_entities st key = Some saved"
  shows "\<exists>new. saved_entities (save_subresources path resp st) key = Some (saved @ new)"
proof (cases "key = path")
  case True
  with assms show ?thesis by (simp add: save_subresources_path)
next
  case False
  with assms show ?thesis by (simp add: save_subresources_other)
qed

text \<open>
  C2. For a response whose body is a JSON array, the identifiers that
  \<^verbatim>\<open>save_subresources\<close> harvests are, in the order of the entries, the value of the
  \<^verbatim>\<open>id\<close> field of each object that has one and, for each string that ends in
  \<^verbatim>\<open>/\<close>, the string without its trailing separators (\<^verbatim>\<open>rstrip\<close> removes all of
  them); other entries contribute nothing. When at least one identifier was harvested,
  the entry of the fetched path becomes the old entry (empty when there was none)
  followed by the harvested identifiers; when none was, the state is unchanged. The
  entries of other paths are untouched, and what any entry held before is still there, as
  a prefix of what it holds afterwards.
\<close>

theorem save_subresources_harvest:
  assumes "json resp = Some (JArr entries)"
  shows "subresources_of resp = spec_harvested_ids entries
         \<and> (spec_harvested_ids entries \<noteq> [] \<longrightarrow>
              saved_entities (save_subresources path resp st) path
                = Some ((case saved_entities st path of None \<Rightarrow> [] | Some saved \<Rightarrow> saved)
                        @ spec_harvested_ids entries))
         \<and> (spec_harvested_ids entries = [] \<longrightarrow> save_subresources path resp st = st)
         \<and> (\<forall>other. other \<noteq> path \<longrightarrow>
              saved_entities (save_subresources path resp st) other = saved_entities st other)
         \<and> (\<forall>key saved. saved_entities st key = Some saved \<longrightarrow>
              (\<exists>new. saved_entities (save_subresources path resp st) key = Some (saved @ new)))"
  using subresources_of_array [OF assms]
  by (simp add: save_subresources_path save_subresources_other save_subresources_nothing
        save_subresources_extends)

theorem save_subresources_harvest_witness:
  "json mixed_response
     = Some (JArr [JObj [(''id'', JStr ''c'')], JStr ''d//'', JStr ''e'',
                   JObj [(''label'', JStr ''f'')], JNum 7])
   \<and> subresources_of mixed_response = [JStr ''c'', JStr ''d'']
   \<and> saved_entities (save_subresources ''/widgets'' mixed_response after_widgets) ''/widgets''
       = Some [JStr ''a'', JStr ''b'', JStr ''c'', JStr ''d'']
   \<and> saved_entities (save_subresources ''/gadgets'' mixed_response after_widgets) ''/gadgets''
       = Some [JStr ''c'', JStr ''d'']
   \<and> saved_entities (save_subresources ''/gadgets'' mixed_response after_widgets) ''/widgets''
       = Some [JStr ''a'', JStr ''b'']"
proof -
  have j: "json mixed_response
     = Some (JArr [JObj [(''id'', JStr ''c'')], JStr ''d//'', JStr ''e'',
                   JObj [(''label'', JStr ''f'')], JNum 7])"
    by (simp add: mixed_response_def)
  have ids: "spec_harvested_ids [JObj [(''id'', JStr ''c'')], JStr ''d//'', JStr ''e'',
                   JObj [(''label'', JStr ''f'')], JNum 7] = [JStr ''c'', JStr ''d'']"
    by code_simp
  have old: "saved_entities after_widgets ''/widgets'' = Some [JStr ''a'', JStr ''b'']"
            "saved_entities after_widgets ''/gadgets'' = None"
    by (simp_all add: after_widgets_def)
  note w = save_subresources_harvest [OF j, where st = after_widgets and path = "''/widgets''"]
  note g = save_subresources_harvest [OF j, where st = after_widgets and path = "''/gadgets''"]
  have a: "subresources_of mixed_response = [JStr ''c'', JStr ''d'']"
    using w ids by simp
  have b: "saved_entities (save_subresources ''/widgets'' mixed_response after_widgets) ''/widgets''
       = Some [JStr ''a'', JStr ''b'', JStr ''c'', JStr ''d'']"
    using w ids old by simp
  have c: "saved_entities (save_subresources ''/gadgets'' mixed_response after_widgets) ''/gadgets''
       = Some [JStr ''c'', JStr ''d'']"
    using g ids old by simp
  have d: "saved_entities (save_subresources ''/gadgets'' mixed_response after_widgets) ''/widgets''
       = Some [JStr ''a'', JStr ''b'']"
    using g old by simp
  from j a b c d show ?thesis by blast
qed

section \<open>The cache along a run\<close>

lemma save_subresources_nonempty:
  assumes "nonempty_entries st"
  shows "nonempty_entries (save_subresources path resp st)"
  unfolding nonempty_entries_def
proof (intro allI impI)
  fix key saved
  assume s: "saved_entities (save_subresources path resp st) key = Some saved"
  show "saved \<noteq> []"
  proof (cases "key = path")
    case True
    with s assms show ?thesis
      by (auto simp add: save_subresources_path nonempty_entries_def split: if_splits)
  next
    case False
    with s assms show ?thesis
      by (auto simp add: save_subresources_other nonempty_entries_def)
  qed
qed

text \<open>What a call of \<^verbatim>\<open>check_api_resource\<close> that returns can have done to the state.\<close>

lemma request_and_check_effect:
  assumes "request_and_check env resource response_code api url test st = Inr (result, st')"
  shows "st' = st\<lparr>clock := clock st + 1\<rparr>
         \<or> (\<exists>resp. do_request env (clock st) (http_method (snd resource)) url = Inr resp
              \<and> (st' = st\<lparr>clock := clock st + 1,
                           received := received st
                             @ [(http_method (snd resource), url, fst resource, resp)]\<rparr>
                  \<or> st' = save_subresources (fst resource) resp
                             (st\<lparr>clock := clock st + 1,
                                 received := received st
                                   @ [(http_method (snd resource), url, fst resource, resp)]\<rparr>)))"
  using assms
  by (auto simp add: request_and_check_def Let_def split: sum.splits if_splits)

lemma check_api_resource_effect:
  assumes "check_api_resource env resource response_code api st = Inr (result, st')"
  shows "st' = st
         \<or> st' = st\<lparr>clock := clock st + 1\<rparr>
         \<or> (\<exists>meth url resp. do_request env (clock st) meth url = Inr resp
              \<and> (st' = st\<lparr>clock := clock st + 1,
                           received := received st @ [(meth, url, fst resource, resp)]\<rparr>
                  \<or> st' = save_subresources (fst resource) resp
                             (st\<lparr>clock := clock st + 1,
                                 received := received st @ [(meth, url, fst resource, resp)]\<rparr>)))"
proof -
  from assms have "st' = st
         \<or> (\<exists>url test. request_and_check env resource response_code api url test st = Inr (result, st'))"
    by (auto simp add: check_api_resource_def Let_def
          split: if_splits option.splits list.splits jvalue.splits)
  then show ?thesis
  proof
    assume "st' = st"
    then show ?thesis by (rule disjI1)
  next
    assume "\<exists>url test. request_and_check env resource response_code api url test st = Inr (result, st')"
    then obtain url test
      where "request_and_check env resource response_code api url test st = Inr (result, st')"
      by blast
    from request_and_check_effect [OF this] show ?thesis
    proof (elim disjE exE conjE)
      assume "st' = st\<lparr>clock := clock st + 1\<rparr>"
      then show ?thesis by (intro disjI2 disjI1)
    next
      fix resp
      assume "do_request env (clock st) (http_method (snd resource)) url = Inr resp"
        and "st' = st\<lparr>clock := clock st + 1,
                           received := received st
                             @ [(http_method (snd resource), url, fst resource, resp)]\<rparr>"
      then show ?thesis by (intro disjI2 exI conjI disjI1)
    next
      fix resp
      assume "do_request env (clock st) (http_method (snd resource)) url = Inr resp"
        and "st' = save_subresources (fst resource) resp
                             (st\<lparr>clock := clock st + 1,
                                 received := received st
                                   @ [(http_method (snd resource), url, fst resource, resp)]\<rparr>)"
      then show ?thesis by (intro disjI2 exI conjI)
    qed
  qed
qed

lemma check_base_paths_effect:
  assumes "check_base_paths env api (results, st) = Inr (results', st')"
  shows "st' = st\<lparr>clock := clock st + 3\<rparr>"
  using assms by (auto simp add: check_base_paths_def split: sum.splits)


lemma nonempty_entries_same:
  "nonempty_entries st \<Longrightarrow> saved_entities st' = saved_entities st \<Longrightarrow> nonempty_entries st'"
  by (simp add: nonempty_entries_def)

lemma reachable_nonempty:
  assumes "reachable env st"
  shows "nonempty_entries st"
  using assms
proof (induction rule: reachable.induct)
  case start
  show ?case by (simp add: nonempty_entries_def init_crawler_def)
next
  case (resource_step st resource response_code api result st')
  from check_api_resource_effect [OF resource_step.hyps(2)]
  show ?case
  proof (elim disjE exE conjE)
    assume "st' = st"
    with resource_step.IH show ?thesis by simp
  next
    assume "st' = st\<lparr>clock := clock st + 1\<rparr>"
    then show ?thesis by (intro nonempty_entries_same [OF resource_step.IH]) simp
  next
    fix meth url resp
    assume "st' = st\<lparr>clock := clock st + 1,
                      received := received st @ [(meth, url, fst resource, resp)]\<rparr>"
    then show ?thesis by (intro nonempty_entries_same [OF resource_step.IH]) simp
  next
    fix meth url resp
    assume eq: "st' = save_subresources (fst resource) resp
                  (st\<lparr>clock := clock st + 1,
                      received := received st @ [(meth, url, fst resource, resp)]\<rparr>)"
    have "nonempty_entries (st\<lparr>clock := clock st + 1,
                     received := received st @ [(meth, url, fst resource, resp)]\<rparr>)"
      by (intro nonempty_entries_same [OF resource_step.IH]) simp
    from save_subresources_nonempty [OF this] show ?thesis unfolding eq .
  qed
next
  case (base_step st api results results' st')
  from check_base_paths_effect [OF base_step.hyps(2)]
  show ?case by (intro nonempty_entries_same [OF base_step.IH]) simp
qed


lemma validate_CORS_error:
  assumes "validate_CORS meth resp = Inl e"
  shows "e = KeyError ''access-control-allow-headers'' \<or> e = KeyError ''access-control-allow-methods''"
  using assms by (auto simp add: validate_CORS_def split: if_splits option.splits)

lemma check_response_error:
  assumes "check_response env test api_name meth path resp = Inl e"
  shows "e \<noteq> IndexError"
  using assms
  by (auto simp add: check_response_def
        split: sum.splits if_splits option.splits validation.splits
        dest: validate_CORS_error)

lemma request_and_check_error:
  assumes "request_and_check env resource response_code api url test st = Inl e"
  shows "e \<noteq> IndexError"
  using assms
  by (auto simp add: request_and_check_def Let_def
        split: sum.splits if_splits dest: check_response_error)

lemma check_api_resource_no_IndexError:
  assumes "nonempty_entries st"
  shows "check_api_resource env resource response_code api st \<noteq> Inl IndexError"
proof
  assume err: "check_api_resource env resource response_code api st = Inl IndexError"
  have "\<exists>url test. request_and_check env resource response_code api url test st = Inl IndexError"
    using err assms
    by (auto simp add: check_api_resource_def Let_def nonempty_entries_def
          split: if_splits option.splits list.splits jvalue.splits)
  then show False using request_and_check_error by blast
qed

text \<open>
  C10. In every state that a run reaches, each entry of \<^verbatim>\<open>saved_entities\<close> is a list
  with a first element; \<^verbatim>\<open>save_subresources\<close> keeps it so, since it creates or extends
  an entry only with a non-empty list of harvested identifiers; and
  \<^verbatim>\<open>check_api_resource\<close> never raises \<^verbatim>\<open>IndexError\<close>: where it finds the collection
  path in the cache, entry \<^verbatim>\<open>[0]\<close> exists.
\<close>

theorem first_entry_in_bounds:
  assumes "reachable env st"
  shows "(\<forall>path saved. saved_entities st path = Some saved \<longrightarrow>
            (\<exists>entity others. saved = entity # others))
         \<and> (\<forall>path resp key saved.
              saved_entities (save_subresources path resp st) key = Some saved \<longrightarrow> saved \<noteq> [])
         \<and> check_api_resource env resource response_code api st \<noteq> Inl IndexError"
proof -
  note inv = reachable_nonempty [OF assms]
  have a: "\<forall>path saved. saved_entities st path = Some saved \<longrightarrow>
            (\<exists>entity others. saved = entity # others)"
    using inv by (auto simp add: nonempty_entries_def neq_Nil_conv)
  have b: "\<forall>path resp key saved.
              saved_entities (save_subresources path resp st) key = Some saved \<longrightarrow> saved \<noteq> []"
    using save_subresources_nonempty [OF inv] by (auto simp add: nonempty_entries_def)
  from a b check_api_resource_no_IndexError [OF inv] show ?thesis by blast
qed


lemma check_codes_reachable:
  assumes "reachable env (snd acc)"
    and "check_codes env api resource codes acc = Inr acc'"
  shows "reachable env (snd acc')"
  using assms
proof (induction codes arbitrary: acc)
  case Nil
  then show ?case by (cases acc) auto
next
  case (Cons code codes)
  obtain results st where acc: "acc = (results, st)" by (cases acc)
  show ?case
  proof (cases "code = 200")
    case False
    with Cons.prems acc
    have "reachable env (snd (results, st))"
      and "check_codes env api resource codes (results, st) = Inr acc'"
      by simp_all
    then show ?thesis by (rule Cons.IH)
  next
    case True
    with Cons.prems(2) acc obtain result st1
      where step: "check_api_resource env resource code api st = Inr (result, st1)"
        and rest: "check_codes env api resource codes
                     (case result of None \<Rightarrow> results | Some r \<Rightarrow> results @ [r], st1) = Inr acc'"
      by (auto split: sum.splits)
    from Cons.prems(1) acc have "reachable env st" by simp
    from reachable.resource_step [OF this step] have "reachable env st1" .
    with Cons.IH [OF _ rest] show ?thesis by simp
  qed
qed

lemma check_reads_reachable:
  assumes "reachable env (snd acc)"
    and "check_reads env api resources acc = Inr acc'"
  shows "reachable env (snd acc')"
  using assms
proof (induction resources arbitrary: acc)
  case Nil
  then show ?case by simp
next
  case (Cons resource resources)
  from Cons.prems(2) obtain acc1
    where one: "check_codes env api resource (responses (snd resource)) acc = Inr acc1"
      and rest: "check_reads env api resources acc1 = Inr acc'"
    by (auto split: sum.splits)
  from check_codes_reachable [OF Cons.prems(1) one] have "reachable env (snd acc1)" .
  from Cons.IH [OF this rest] show ?case .
qed

lemma basics_loop_reachable:
  assumes "reachable env (snd acc)"
    and "basics_loop env api_names acc = Inr acc'"
  shows "reachable env (snd acc')"
  using assms
proof (induction api_names arbitrary: acc)
  case Nil
  then show ?case by simp
next
  case (Cons api api_names)
  from Cons.prems(2) obtain acc1 acc2
    where base: "check_base_paths env api acc = Inr acc1"
      and reads: "check_reads env api (get_reads env api) acc1 = Inr acc2"
      and rest: "basics_loop env api_names acc2 = Inr acc'"
    by (auto split: sum.splits)
  from base have "check_base_paths env api (fst acc, snd acc) = Inr (fst acc1, snd acc1)" by simp
  from reachable.base_step [OF Cons.prems(1) this] have "reachable env (snd acc1)" .
  from check_reads_reachable [OF this reads] have "reachable env (snd acc2)" .
  from Cons.IH [OF this rest] show ?case .
qed

lemma basics_reachable:
  assumes "basics env init_crawler = Inr (results, st)"
  shows "reachable env st"
  using basics_loop_reachable [of env "([], init_crawler)" "apis env" "(results, st)"] assms
  by (simp add: basics_def reachable.start)

lemma example_get_widgets:
  "check_api_resource example_env widgets_resource 200 ''node'' init_crawler
     = Inr (Some (PASS ''GET /x-nmos/node/v1.0/widgets''), after_widgets)"
proof -
  have url: "rstrip (api_url example_env ''node'') CHR ''/'' @ fst widgets_resource
               = ''http://iut/x-nmos/node/v1.0/widgets''"
    by code_simp
  have nm: "test_name example_env (http_method (snd widgets_resource)) ''node'' (fst widgets_resource)
               = ''GET /x-nmos/node/v1.0/widgets''"
    by code_simp
  have fields: "fst widgets_resource = ''/widgets''" "http_method (snd widgets_resource) = ''get''"
    "params (snd widgets_resource) = []"
    by (simp_all add: widgets_resource_def)
  have req: "do_request example_env n ''get'' ''http://iut/x-nmos/node/v1.0/widgets'' = Inr widgets_response" for n
    by (simp add: example_env_def)
  have code: "status_code widgets_response = 200"
    by (simp add: widgets_response_def)
  have chk: "check_response example_env ''GET /x-nmos/node/v1.0/widgets'' ''node'' ''get'' ''/widgets''
               widgets_response = Inr (PASS ''GET /x-nmos/node/v1.0/widgets'')"
    by code_simp
  have sub: "subresources_of widgets_response = [JStr ''a'', JStr ''b'']"
    by code_simp
  have save: "save_subresources ''/widgets'' widgets_response
                (init_crawler\<lparr>clock := clock init_crawler + 1,
                     received := received init_crawler
                       @ [(''get'', ''http://iut/x-nmos/node/v1.0/widgets'', ''/widgets'', widgets_response)]\<rparr>)
              = after_widgets"
    by (simp add: save_subresources_def sub init_crawler_def after_widgets_def)
  have rq: "request_and_check example_env widgets_resource 200 ''node''
              ''http://iut/x-nmos/node/v1.0/widgets'' ''GET /x-nmos/node/v1.0/widgets'' init_crawler
            = Inr (Some (PASS ''GET /x-nmos/node/v1.0/widgets''), after_widgets)"
    unfolding request_and_check_def fields
    by (simp add: req code chk save del: One_nat_def)
  show ?thesis
    unfolding check_api_resource_def
    by (simp add: fields url [unfolded fields] nm [unfolded fields] rq)
qed

lemma reachable_after_widgets: "reachable example_env after_widgets"
  by (rule reachable.resource_step [OF reachable.start example_get_widgets])

theorem first_entry_in_bounds_witness:
  "reachable example_env after_widgets
   \<and> saved_entities after_widgets ''/widgets'' = Some [JStr ''a'', JStr ''b'']
   \<and> (\<exists>entity others. [JStr ''a'', JStr ''b''] = entity # others)
   \<and> check_api_resource example_env widget_resource 200 ''node'' after_widgets \<noteq> Inl IndexError"
proof -
  note r = reachable_after_widgets
  have s: "saved_entities after_widgets ''/widgets'' = Some [JStr ''a'', JStr ''b'']"
    by (simp add: after_widgets_def)
  from first_entry_in_bounds [OF r, of widget_resource 200 "''node''"] s
  have "(\<exists>entity others. [JStr ''a'', JStr ''b''] = entity # others)
        \<and> check_api_resource example_env widget_resource 200 ''node'' after_widgets \<noteq> Inl IndexError"
    by blast
  with r s show ?thesis by blast
qed

section \<open>Where substituted identifiers come from\<close>

lemma harvested_from_mono:
  assumes "harvested_from env st path entity"
    and "set (received st) \<subseteq> set (received st')"
    and "clock st \<le> clock st'"
  shows "harvested_from env st' path entity"
proof -
  from assms(1) obtain meth url resp n
    where "(meth, url, path, resp) \<in> set (received st)"
      and "entity \<in> set (subresources_of resp)"
      and "n < clock st"
      and "do_request env n meth url = Inr resp"
    unfolding harvested_from_def by blast
  with assms(2,3) have "(meth, url, path, resp) \<in> set (received st')
      \<and> entity \<in> set (subresources_of resp) \<and> n < clock st'
      \<and> do_request env n meth url = Inr resp"
    by auto
  then show ?thesis unfolding harvested_from_def by blast
qed

lemma harvested_only_same:
  assumes "harvested_only env st"
    and "saved_entities st' = saved_entities st"
    and "set (received st) \<subseteq> set (received st')"
    and "clock st \<le> clock st'"
  shows "harvested_only env st'"
  unfolding harvested_only_def
proof (intro allI impI)
  fix path saved entity
  assume "saved_entities st' path = Some saved" and "entity \<in> set saved"
  with assms(1,2) have "harvested_from env st path entity"
    by (simp add: harvested_only_def)
  from harvested_from_mono [OF this assms(3,4)] show "harvested_from env st' path entity" .
qed

lemma harvested_only_save:
  assumes inv: "harvested_only env st"
    and req: "do_request env (clock st) meth url = Inr resp"
  shows "harvested_only env
           (save_subresources path resp
              (st\<lparr>clock := clock st + 1,
                  received := received st @ [(meth, url, path, resp)]\<rparr>))"
    (is "harvested_only env ?st'")
  unfolding harvested_only_def
proof (intro allI impI)
  fix key saved entity
  assume s: "saved_entities ?st' key = Some saved" and e: "entity \<in> set saved"
  have sub: "set (received st) \<subseteq> set (received ?st')" and le: "clock st \<le> clock ?st'"
    by auto
  have new: "harvested_from env ?st' path x" if "x \<in> set (subresources_of resp)" for x
    unfolding harvested_from_def
    using that req by (intro exI [of _ meth] exI [of _ url] exI [of _ resp] exI [of _ "clock st"]) simp
  show "harvested_from env ?st' key entity"
  proof (cases "key = path")
    case False
    with s have "saved_entities st key = Some saved"
      by (simp add: save_subresources_other)
    with inv e have "harvested_from env st key entity"
      by (simp add: harvested_only_def)
    from harvested_from_mono [OF this sub le] show ?thesis .
  next
    case True
    show ?thesis
    proof (cases "entity \<in> set (subresources_of resp)")
      case True
      from new [OF this] \<open>key = path\<close> show ?thesis by simp
    next
      case False
      with s e \<open>key = path\<close> obtain old
        where "saved_entities st path = Some old" and "entity \<in> set old"
        by (auto simp add: save_subresources_path split: if_splits option.splits)
      with inv have "harvested_from env st path entity"
        by (simp add: harvested_only_def)
      from harvested_from_mono [OF this sub le] \<open>key = path\<close> show ?thesis by simp
    qed
  qed
qed

lemma reachable_harvested:
  assumes "reachable env st"
  shows "harvested_only env st"
  using assms
proof (induction rule: reachable.induct)
  case start
  show ?case by (simp add: harvested_only_def init_crawler_def)
next
  case (resource_step st resource response_code api result st')
  from check_api_resource_effect [OF resource_step.hyps(2)]
  show ?case
  proof (elim disjE exE conjE)
    assume "st' = st"
    with resource_step.IH show ?thesis by simp
  next
    assume "st' = st\<lparr>clock := clock st + 1\<rparr>"
    then show ?thesis by (intro harvested_only_same [OF resource_step.IH]) simp_all
  next
    fix meth url resp
    assume "st' = st\<lparr>clock := clock st + 1,
                      received := received st @ [(meth, url, fst resource, resp)]\<rparr>"
    then show ?thesis by (intro harvested_only_same [OF resource_step.IH]) auto
  next
    fix meth url resp
    assume req: "do_request env (clock st) meth url = Inr resp"
      and eq: "st' = save_subresources (fst resource) resp
                  (st\<lparr>clock := clock st + 1,
                      received := received st @ [(meth, url, fst resource, resp)]\<rparr>)"
    from harvested_only_save [OF resource_step.IH req] show ?thesis unfolding eq .
  qed
next
  case (base_step st api results results' st')
  from check_base_paths_effect [OF base_step.hyps(2)]
  show ?case by (intro harvested_only_same [OF base_step.IH]) simp_all
qed

lemma check_api_resource_not_string:
  assumes "params (snd resource) = [p]"
    and "saved_entities st (collection_path (fst resource)) = Some (entity # others)"
    and "\<forall>ident. entity \<noteq> JStr ident"
  shows "check_api_resource env resource response_code api st = Inl TypeError"
  using assms by (cases entity) (simp_all add: check_api_resource_def Let_def)

text \<open>
  C1. In every state that a run reaches, for a declared endpoint with one parameter whose
  collection path has a cache entry: every identifier of that entry was harvested from
  the body of a response that \<open>do_request\<close> returned earlier in the run to a request for
  that very path; the entry has a first element, and it is this element that
  \<^verbatim>\<open>check_api_resource\<close> puts in place of the parameter when it is a string (when it
  is not, \<^verbatim>\<open>str.replace\<close> raises \<^verbatim>\<open>TypeError\<close> and nothing is requested). Without
  a cache entry nothing is substituted (see C8), so no identifier reaches a URL unless it
  was harvested.
\<close>

theorem substituted_identifier_was_harvested:
  assumes "reachable env st"
    and "params (snd resource) = [p]"
    and "saved_entities st (collection_path (fst resource)) = Some saved"
  shows "(\<forall>entity \<in> set saved.
            \<exists>meth url resp n.
              (meth, url, collection_path (fst resource), resp) \<in> set (received st)
              \<and> entity \<in> set (subresources_of resp)
              \<and> n < clock st
              \<and> do_request env n meth url = Inr resp)
         \<and> (\<exists>entity others.
              saved = entity # others
              \<and> (\<forall>ident. entity = JStr ident \<longrightarrow>
                   check_api_resource env resource response_code api st
                     = request_and_check env resource response_code api
                         (rstrip (api_url env api) CHR ''/''
                            @ replace (fst resource) (''{'' @ p @ ''}'') ident)
                         (test_name env (http_method (snd resource)) api
                            (replace (fst resource) (''{'' @ p @ ''}'') ident))
                         st)
              \<and> ((\<forall>ident. entity \<noteq> JStr ident) \<longrightarrow>
                   check_api_resource env resource response_code api st = Inl TypeError))"
proof (intro conjI)
  from reachable_harvested [OF assms(1)] assms(3)
  show "\<forall>entity \<in> set saved.
            \<exists>meth url resp n.
              (meth, url, collection_path (fst resource), resp) \<in> set (received st)
              \<and> entity \<in> set (subresources_of resp)
              \<and> n < clock st
              \<and> do_request env n meth url = Inr resp"
    unfolding harvested_only_def harvested_from_def by blast
next
  from reachable_nonempty [OF assms(1)] assms(3) obtain entity others
    where saved: "saved = entity # others"
    unfolding nonempty_entries_def by (cases saved) auto
  have str: "\<forall>ident. entity = JStr ident \<longrightarrow>
                   check_api_resource env resource response_code api st
                     = request_and_check env resource response_code api
                         (rstrip (api_url env api) CHR ''/''
                            @ replace (fst resource) (''{'' @ p @ ''}'') ident)
                         (test_name env (http_method (snd resource)) api
                            (replace (fst resource) (''{'' @ p @ ''}'') ident))
                         st"
    using check_api_resource_first_id [OF assms(2)] assms(3) saved by blast
  have other: "(\<forall>ident. entity \<noteq> JStr ident) \<longrightarrow>
                   check_api_resource env resource response_code api st = Inl TypeError"
    using check_api_resource_not_string [OF assms(2)] assms(3) saved by blast
  from saved str other
  show "\<exists>entity others.
              saved = entity # others
              \<and> (\<forall>ident. entity = JStr ident \<longrightarrow>
                   check_api_resource env resource response_code api st
                     = request_and_check env resource response_code api
                         (rstrip (api_url env api) CHR ''/''
                            @ replace (fst resource) (''{'' @ p @ ''}'') ident)
                         (test_name env (http_method (snd resource)) api
                            (replace (fst resource) (''{'' @ p @ ''}'') ident))
                         st)
              \<and> ((\<forall>ident. entity \<noteq> JStr ident) \<longrightarrow>
                   check_api_resource env resource response_code api st = Inl TypeError)"
    by blast
qed


theorem substituted_identifier_was_harvested_witness:
  "reachable example_env after_widgets
   \<and> params (snd widget_resource) = [''widgetId'']
   \<and> saved_entities after_widgets (collection_path (fst widget_resource))
       = Some [JStr ''a'', JStr ''b'']
   \<and> (\<exists>meth url resp n.
         (meth, url, collection_path (fst widget_resource), resp) \<in> set (received after_widgets)
         \<and> JStr ''a'' \<in> set (subresources_of resp)
         \<and> n < clock after_widgets
         \<and> do_request example_env n meth url = Inr resp)
   \<and> check_api_resource example_env widget_resource 200 ''node'' after_widgets
       = request_and_check example_env widget_resource 200 ''node''
           (rstrip (api_url example_env ''node'') CHR ''/''
              @ replace (fst widget_resource) (''{'' @ ''widgetId'' @ ''}'') ''a'')
           (test_name example_env (http_method (snd widget_resource)) ''node''
              (replace (fst widget_resource) (''{'' @ ''widgetId'' @ ''}'') ''a''))
           after_widgets"
proof -
  note r = reachable_after_widgets
  have p: "params (snd widget_resource) = [''widgetId'']"
    by code_simp
  have s: "saved_entities after_widgets (collection_path (fst widget_resource))
             = Some [JStr ''a'', JStr ''b'']"
    by code_simp
  note inst = substituted_identifier_was_harvested
                [OF r p s, where response_code = 200 and api = "''node''"]
  from inst have a: "\<exists>meth url resp n.
         (meth, url, collection_path (fst widget_resource), resp) \<in> set (received after_widgets)
         \<and> JStr ''a'' \<in> set (subresources_of resp)
         \<and> n < clock after_widgets
         \<and> do_request example_env n meth url = Inr resp"
    by simp
  from inst have b: "check_api_resource example_env widget_resource 200 ''node'' after_widgets
       = request_and_check example_env widget_resource 200 ''node''
           (rstrip (api_url example_env ''node'') CHR ''/''
              @ replace (fst widget_resource) (''{'' @ ''widgetId'' @ ''}'') ''a'')
           (test_name example_env (http_method (snd widget_resource)) ''node''
              (replace (fst widget_resource) (''{'' @ ''widgetId'' @ ''}'') ''a''))
           after_widgets"
    by blast
  from r p s a b show ?thesis by blast
qed

section \<open>The replies to the health command\<close>

lemma check_creation_timestamp_passes:
  assumes "check_creation_timestamp h test connection_uri timestamp timing = Inr None"
  shows "\<exists>creation. py_getitem timing ''creation_timestamp'' = Inr creation
           \<and> compare_resource_version h creation timestamp = Inr 1"
  using assms
  by (auto simp add: check_creation_timestamp_def split: sum.splits if_splits)

lemma check_timing_passes:
  assumes "check_timing h test connection_uri timestamp message = Inr None"
  shows "\<exists>timing. py_getitem message ''timing'' = Inr timing
           \<and> py_getitem timing ''origin_timestamp'' = Inr (JStr timestamp)
           \<and> check_creation_timestamp h test connection_uri timestamp timing = Inr None"
  using assms
  by (auto simp add: check_timing_def split: sum.splits if_splits)

lemma check_health_message_passes:
  assumes "check_health_message h test connection_uri timestamp raw = Inr None"
  shows "\<exists>message. loads h raw = Inr message
           \<and> py_getitem message ''message_type'' = Inr (JStr ''health'')
           \<and> check_timing h test connection_uri timestamp message = Inr None"
  using assms
  by (auto simp add: check_health_message_def split: sum.splits if_splits)

lemma valid_reply:
  assumes "check_health_message h test connection_uri timestamp raw = Inr None"
  shows "reply_origin h raw = Some (JStr timestamp)
         \<and> (\<exists>creation. reply_creation h raw = Some creation
               \<and> compare_resource_version h creation timestamp = Inr 1)"
proof -
  from check_health_message_passes [OF assms] obtain message
    where m: "loads h raw = Inr message"
      and t: "check_timing h test connection_uri timestamp message = Inr None"
    by blast
  from check_timing_passes [OF t] obtain timing
    where tm: "py_getitem message ''timing'' = Inr timing"
      and o: "py_getitem timing ''origin_timestamp'' = Inr (JStr timestamp)"
      and c: "check_creation_timestamp h test connection_uri timestamp timing = Inr None"
    by blast
  from check_creation_timestamp_passes [OF c] obtain creation
    where cr: "py_getitem timing ''creation_timestamp'' = Inr creation"
      and later: "compare_resource_version h creation timestamp = Inr 1"
    by blast
  from m tm o cr later show ?thesis
    by (simp add: reply_origin_def reply_creation_def reply_timing_field_def)
qed

lemma check_health_message_failure:
  assumes "check_health_message h test connection_uri timestamp raw = Inr (Some failure)"
  shows "state failure = Fail"
  using assms
  by (auto simp add: check_health_message_def check_timing_def check_creation_timestamp_def FAIL_def
        split: sum.splits if_splits)

lemma health_responses_failure:
  assumes "health_responses h test timestamp sessions = Some failure"
  shows "state failure = Fail"
  using assms
proof (induction sessions)
  case Nil
  then show ?case by simp
next
  case (Cons session sessions)
  obtain connection_uri messages where s: "session = (connection_uri, messages)"
    by (cases session)
  from Cons.prems show ?case
    unfolding s
    by (auto simp add: FAIL_def split: if_splits sum.splits option.splits
          dest: check_health_message_failure Cons.IH)
qed

lemma health_responses_pass:
  assumes "health_responses h test timestamp sessions = None"
    and "(connection_uri, messages) \<in> set sessions"
  shows "\<exists>raw. messages = [raw]
           \<and> check_health_message h test connection_uri timestamp raw = Inr None"
  using assms
proof (induction sessions)
  case Nil
  then show ?case by simp
next
  case (Cons session sessions)
  obtain uri msgs where s: "session = (uri, msgs)"
    by (cases session)
  from Cons.prems(1) have one: "msgs \<noteq> []" "\<not> 1 < length msgs"
    and ok: "check_health_message h test uri timestamp (msgs ! 0) = Inr None"
    and rest: "health_responses h test timestamp sessions = None"
    unfolding s by (auto split: if_splits sum.splits option.splits)
  from one obtain raw where raw: "msgs = [raw]"
    by (cases msgs) auto
  show ?case
  proof (cases "(connection_uri, messages) = (uri, msgs)")
    case True
    with raw ok show ?thesis by simp
  next
    case False
    with Cons.prems(2) s have "(connection_uri, messages) \<in> set sessions" by auto
    from Cons.IH [OF rest this] show ?thesis .
  qed
qed

text \<open>
  C3. Let a connection of the cohort that was sent the health command have received no
  message, or more than one, or exactly one whose origin timestamp is not the timestamp
  of the health command or whose creation timestamp is not later than it, that is, for
  which \<^verbatim>\<open>compare_resource_version\<close> of the creation timestamp and the command's
  timestamp does not return 1 (it returns 0 for equal and -1 for earlier timestamps, as
  for an origin of 1000 and a creation of 999). Then the check of the replies ends the
  test with a FAIL.
\<close>

theorem health_reply_required:
  assumes "(connection_uri, messages) \<in> set sessions"
    and "length messages = 0 \<or> length messages > 1
         \<or> (\<exists>raw. messages = [raw]
              \<and> \<not> (reply_origin h raw = Some (JStr timestamp)
                     \<and> (\<exists>creation. reply_creation h raw = Some creation
                           \<and> compare_resource_version h creation timestamp = Inr 1)))"
  shows "\<exists>failure. health_responses h test timestamp sessions = Some failure
           \<and> state failure = Fail"
proof (cases "health_responses h test timestamp sessions")
  case (Some failure)
  with health_responses_failure [OF Some] show ?thesis by simp
next
  case None
  from health_responses_pass [OF None assms(1)] obtain raw
    where raw: "messages = [raw]"
      and ok: "check_health_message h test connection_uri timestamp raw = Inr None"
    by blast
  from valid_reply [OF ok] raw assms(2) show ?thesis by auto
qed

theorem health_reply_required_witness:
  "(''ws://b'', [''early'']) \<in> set [(''ws://a'', [''late'']), (''ws://b'', [''early''])]
   \<and> reply_origin example_helpers ''early'' = Some (JStr ''1000'')
   \<and> reply_creation example_helpers ''early'' = Some (JStr ''999'')
   \<and> compare_resource_version example_helpers (JStr ''999'') ''1000'' = Inr (- 1)
   \<and> (\<exists>failure. health_responses example_helpers ''t'' ''1000''
                    [(''ws://a'', [''late'']), (''ws://b'', [''early''])] = Some failure
         \<and> state failure = Fail)"
proof -
  have a: "(''ws://b'', [''early'']) \<in> set [(''ws://a'', [''late'']), (''ws://b'', [''early''])]"
    by simp
  have o: "reply_origin example_helpers ''early'' = Some (JStr ''1000'')"
    by code_simp
  have c: "reply_creation example_helpers ''early'' = Some (JStr ''999'')"
    by code_simp
  have cmp: "compare_resource_version example_helpers (JStr ''999'') ''1000'' = Inr (- 1)"
    by code_simp
  have b: "length [''early''] = 0 \<or> length [''early''] > 1
         \<or> (\<exists>raw. [''early''] = [raw]
              \<and> \<not> (reply_origin example_helpers raw = Some (JStr ''1000'')
                     \<and> (\<exists>creation. reply_creation example_helpers raw = Some creation
                           \<and> compare_resource_version example_helpers creation ''1000'' = Inr 1)))"
    using c cmp by simp
  from a o c cmp health_reply_required [OF a b, of "''t''"] show ?thesis by blast
qed

lemma health_responses_example_pass:
  "health_responses example_helpers ''t'' ''1000'' [(''ws://a'', [''late''])] = None"
  by code_simp

section \<open>The connections without health command before the timeout\<close>

lemma stay_open_no_health_failure:
  assumes "stay_open_no_health is_open test uris start_time now = Some failure"
  shows "\<exists>k uri. now + real k < start_time + WS_TIMEOUT - 1
           \<and> uri \<in> set uris
           \<and> \<not> is_open uri (now + real k)
           \<and> failure = FAIL test (''WebSocket connection (no health cmd sent) to '' @ uri
                                  @ '' was closed too early'')"
  using assms
proof (induction is_open test uris start_time now rule: stay_open_no_health.induct)
  case (1 is_open test uris start_time now)
  from "1.prems" have inside: "now < start_time + WS_TIMEOUT - 1"
    by (subst (asm) stay_open_no_health.simps) (simp split: if_splits)
  show ?case
  proof (cases "find (\<lambda>connection_uri. \<not> is_open connection_uri now) uris")
    case (Some uri)
    with "1.prems" inside
    have f: "failure = FAIL test (''WebSocket connection (no health cmd sent) to '' @ uri
                                  @ '' was closed too early'')"
      by (subst (asm) stay_open_no_health.simps) simp
    from Some have "uri \<in> set uris" and "\<not> is_open uri now"
      by (auto simp add: find_Some_iff)
    with inside f have "now + real 0 < start_time + WS_TIMEOUT - 1
           \<and> uri \<in> set uris
           \<and> \<not> is_open uri (now + real 0)
           \<and> failure = FAIL test (''WebSocket connection (no health cmd sent) to '' @ uri
                                  @ '' was closed too early'')"
      by simp
    then show ?thesis by blast
  next
    case None
    with "1.prems" inside
    have "stay_open_no_health is_open test uris start_time (now + 1) = Some failure"
      by (subst (asm) stay_open_no_health.simps) simp
    from "1.IH" [OF inside None this] obtain k uri
      where found: "now + 1 + real k < start_time + WS_TIMEOUT - 1
           \<and> uri \<in> set uris
           \<and> \<not> is_open uri (now + 1 + real k)
           \<and> failure = FAIL test (''WebSocket connection (no health cmd sent) to '' @ uri
                                  @ '' was closed too early'')"
      by blast
    have shift: "now + 1 + real k = now + real (Suc k)"
      by simp
    from found show ?thesis
      unfolding shift by blast
  qed
qed

lemma stay_open_no_health_None:
  "(stay_open_no_health is_open test uris start_time now = None)
     = (\<forall>k. now + real k < start_time + WS_TIMEOUT - 1 \<longrightarrow>
              (\<forall>uri \<in> set uris. is_open uri (now + real k)))"
proof (induction is_open test uris start_time now rule: stay_open_no_health.induct)
  case (1 is_open test uris start_time now)
  show ?case
  proof (cases "now < start_time + WS_TIMEOUT - 1")
    case False
    then have "stay_open_no_health is_open test uris start_time now = None"
      by (subst stay_open_no_health.simps) simp
    moreover from False have "\<not> now + real k < start_time + WS_TIMEOUT - 1" for k
      by simp
    ultimately show ?thesis by simp
  next
    case True
    show ?thesis
    proof (cases "find (\<lambda>connection_uri. \<not> is_open connection_uri now) uris")
      case (Some uri)
      with True have "stay_open_no_health is_open test uris start_time now \<noteq> None"
        by (subst stay_open_no_health.simps) simp
      moreover have "\<not> (\<forall>k. now + real k < start_time + WS_TIMEOUT - 1 \<longrightarrow>
              (\<forall>uri \<in> set uris. is_open uri (now + real k)))"
      proof
        assume "\<forall>k. now + real k < start_time + WS_TIMEOUT - 1 \<longrightarrow>
              (\<forall>uri \<in> set uris. is_open uri (now + real k))"
        from this [rule_format, of 0] True have "\<forall>uri \<in> set uris. is_open uri now"
          by simp
        moreover from Some have "uri \<in> set uris" and "\<not> is_open uri now"
          by (auto simp add: find_Some_iff)
        ultimately show False by blast
      qed
      ultimately show ?thesis by blast
    next
      case None
      with True have step: "stay_open_no_health is_open test uris start_time now
             = stay_open_no_health is_open test uris start_time (now + 1)"
        by (subst stay_open_no_health.simps) simp
      from None have here: "\<forall>uri \<in> set uris. is_open uri now"
        by (simp add: find_None_iff)
      have "(\<forall>k. now + real k < start_time + WS_TIMEOUT - 1 \<longrightarrow>
              (\<forall>uri \<in> set uris. is_open uri (now + real k)))
            = (\<forall>k. now + 1 + real k < start_time + WS_TIMEOUT - 1 \<longrightarrow>
              (\<forall>uri \<in> set uris. is_open uri (now + 1 + real k)))"
      proof
        assume all: "\<forall>k. now + real k < start_time + WS_TIMEOUT - 1 \<longrightarrow>
              (\<forall>uri \<in> set uris. is_open uri (now + real k))"
        show "\<forall>k. now + 1 + real k < start_time + WS_TIMEOUT - 1 \<longrightarrow>
              (\<forall>uri \<in> set uris. is_open uri (now + 1 + real k))"
        proof (intro allI impI)
          fix k
          assume inside: "now + 1 + real k < start_time + WS_TIMEOUT - 1"
          have shift: "now + 1 + real k = now + real (Suc k)"
            by simp
          from all [rule_format, of "Suc k"] inside
          show "\<forall>uri \<in> set uris. is_open uri (now + 1 + real k)"
            unfolding shift by blast
        qed
      next
        assume all: "\<forall>k. now + 1 + real k < start_time + WS_TIMEOUT - 1 \<longrightarrow>
              (\<forall>uri \<in> set uris. is_open uri (now + 1 + real k))"
        show "\<forall>k. now + real k < start_time + WS_TIMEOUT - 1 \<longrightarrow>
              (\<forall>uri \<in> set uris. is_open uri (now + real k))"
        proof (intro allI impI)
          fix k
          assume k: "now + real k < start_time + WS_TIMEOUT - 1"
          show "\<forall>uri \<in> set uris. is_open uri (now + real k)"
          proof (cases k)
            case 0
            with here show ?thesis by simp
          next
            case (Suc j)
            have shift: "now + real (Suc j) = now + 1 + real j"
              by simp
            from k all [rule_format, of j] show ?thesis
              unfolding Suc shift by blast
          qed
        qed
      qed
      with step "1.IH" [OF True None] show ?thesis by simp
    qed
  qed
qed


text \<open>
  C4, as the code has it. The loop tests the connections that were sent no health
  command once a second, at the times \<open>now\<close>, \<open>now + 1\<close>, ..., as long as the time is less
  than \<^verbatim>\<open>start_time + WS_TIMEOUT - 1\<close>, which is eleven seconds after the start: one
  second before the timeout. It ends without a failure exactly when every connection is
  open at every such time; otherwise it ends the test with a FAIL that names a
  connection found not open at one of these times.
\<close>

theorem no_health_cohort_window:
  "((stay_open_no_health is_open test uris start_time now = None)
      = (\<forall>k. now + real k < start_time + WS_TIMEOUT - 1 \<longrightarrow>
               (\<forall>uri \<in> set uris. is_open uri (now + real k))))
   \<and> (\<forall>failure.
         stay_open_no_health is_open test uris start_time now = Some failure \<longrightarrow>
         (\<exists>k uri. now + real k < start_time + WS_TIMEOUT - 1
            \<and> uri \<in> set uris
            \<and> \<not> is_open uri (now + real k)
            \<and> failure = FAIL test (''WebSocket connection (no health cmd sent) to '' @ uri
                                   @ '' was closed too early'')))
   \<and> start_time + WS_TIMEOUT - 1 = start_time + 11"
proof (intro conjI allI impI)
  show "(stay_open_no_health is_open test uris start_time now = None)
      = (\<forall>k. now + real k < start_time + WS_TIMEOUT - 1 \<longrightarrow>
               (\<forall>uri \<in> set uris. is_open uri (now + real k)))"
    by (rule stay_open_no_health_None)
next
  fix failure
  assume "stay_open_no_health is_open test uris start_time now = Some failure"
  then show "\<exists>k uri. now + real k < start_time + WS_TIMEOUT - 1
            \<and> uri \<in> set uris
            \<and> \<not> is_open uri (now + real k)
            \<and> failure = FAIL test (''WebSocket connection (no health cmd sent) to '' @ uri
                                   @ '' was closed too early'')"
    by (rule stay_open_no_health_failure)
next
  show "start_time + WS_TIMEOUT - 1 = start_time + 11"
    by (simp add: WS_TIMEOUT_def)
qed

theorem no_health_cohort_window_witness:
  "7 + real 3 < 0 + WS_TIMEOUT - 1
   \<and> ''ws://a'' \<in> set [''ws://a'']
   \<and> \<not> open_until 9 ''ws://a'' (7 + real 3)
   \<and> stay_open_no_health (open_until 9) ''t'' [''ws://a''] 0 7 \<noteq> None"
proof -
  have a: "7 + real 3 < 0 + WS_TIMEOUT - 1"
    by (simp add: WS_TIMEOUT_def)
  have b: "\<not> open_until 9 ''ws://a'' (7 + real 3)"
    by (simp add: open_until_def)
  have c: "''ws://a'' \<in> set [''ws://a'']"
    by simp
  have "\<not> (\<forall>k. 7 + real k < 0 + WS_TIMEOUT - 1 \<longrightarrow>
               (\<forall>uri \<in> set [''ws://a'']. open_until 9 uri (7 + real k)))"
    using a b c by blast
  with no_health_cohort_window [of "open_until 9" "''t''" "[''ws://a'']" 0 7]
  have "stay_open_no_health (open_until 9) ''t'' [''ws://a''] 0 7 \<noteq> None"
    by blast
  with a b c show ?thesis by blast
qed

text \<open>
  C4 as the specification words it fails. One heartbeat interval before the timeout is
  seven seconds after the start. A connection that is open until nine seconds after the
  start is open whenever it is tested before that time (at five and at six seconds), and
  the loop started at five seconds nevertheless ends with the FAIL: it goes on testing
  after seven seconds.
\<close>

theorem no_health_cohort_window_counterexample:
  "WS_TIMEOUT - WS_HEARTBEAT_INTERVAL = 7
   \<and> open_until 9 ''ws://a'' 5
   \<and> open_until 9 ''ws://a'' 6
   \<and> stay_open_no_health (open_until 9) ''t'' [''ws://a''] 0 5
       = Some (FAIL ''t'' ''WebSocket connection (no health cmd sent) to ws://a was closed too early'')"
  by (simp add: stay_open_no_health.simps WS_TIMEOUT_def WS_HEARTBEAT_INTERVAL_def open_until_def)

section \<open>The ext parameters of the senders\<close>












section \<open>A first identifier that is not a string\<close>




end
